theory Spec2Isabelle
  imports Main "HOL-Library.Word" "HOL-Library.Multiset" "HOL-Library.AList"
begin

section \<open>JavaScript strings\<close>

text \<open>
  A JavaScript string is a sequence of UTF-16 code units; \<open>length\<close>, \<open>substring\<close> and the
  indices of a regular-expression match all count code units. A code unit is a 16-bit word,
  a string a list of them. \<open>js\<close> embeds an ASCII literal of the source.
\<close>

type_synonym jschar = "16 word"
type_synonym jsstring = "jschar list"

definition js :: "string \<Rightarrow> jsstring" where
  "js s = map of_char s"

text \<open>
  The class \<open>\s\<close> of a regular expression, which is also what \<open>String.prototype.trim\<close>
  strips: the WhiteSpace and LineTerminator code units of ECMAScript.
\<close>

definition is_space :: "jschar \<Rightarrow> bool" where
  "is_space c \<longleftrightarrow>
     c = 0x09 \<or> c = 0x0A \<or> c = 0x0B \<or> c = 0x0C \<or> c = 0x0D \<or> c = 0x20 \<or> c = 0xA0 \<or>
     c = 0x1680 \<or> (0x2000 \<le> c \<and> c \<le> 0x200A) \<or> c = 0x2028 \<or> c = 0x2029 \<or>
     c = 0x202F \<or> c = 0x205F \<or> c = 0x3000 \<or> c = 0xFEFF"

definition trim :: "jsstring \<Rightarrow> jsstring" where
  "trim s = rev (dropWhile is_space (rev (dropWhile is_space s)))"

text \<open>
  \<open>s.substring(a, b)\<close>: both indices are clamped to \<open>[0, length]\<close> and swapped when
  \<open>a > b\<close>; \<open>s.substring(a)\<close> runs to the end of the string.
\<close>

definition clamp_index :: "jsstring \<Rightarrow> int \<Rightarrow> nat" where
  "clamp_index s i = nat (min (max i 0) (int (length s)))"

definition substring :: "jsstring \<Rightarrow> int \<Rightarrow> int \<Rightarrow> jsstring" where
  "substring s a b =
     (let from = min (clamp_index s a) (clamp_index s b);
          to = max (clamp_index s a) (clamp_index s b)
      in take (to - from) (drop from s))"

definition substring_from :: "jsstring \<Rightarrow> int \<Rightarrow> jsstring" where
  "substring_from s a = drop (clamp_index s a) s"

text \<open>The decimal digits of a number, as a template literal \<open>${i + 1}\<close> prints it.\<close>

fun show_nat :: "nat \<Rightarrow> jsstring" where
  "show_nat n =
     (if n < 10 then [of_nat (48 + n)] else show_nat (n div 10) @ [of_nat (48 + n mod 10)])"

declare show_nat.simps [simp del]

section \<open>The two delimiter patterns\<close>

text \<open>
  \<open>MERMAID_PATTERNS\<close> holds two regular expressions,
  \<^verbatim>\<open>/```mermaid\s*\n([\s\S]*?)```/g\<close> and \<^verbatim>\<open>/:::mermaid\s*\n([\s\S]*?):::/g\<close>.
  A pattern is a sequence of nodes: a literal, a greedy star of a character class, and the
  captured lazy star of a character class.
\<close>

datatype char_class = WhiteSpace | AnyChar

fun in_class :: "char_class \<Rightarrow> jschar \<Rightarrow> bool" where
  "in_class WhiteSpace c = is_space c"
| "in_class AnyChar c = True"

datatype regex_node = Lit jsstring | GreedyStar char_class | CaptureLazyStar char_class

datatype pattern_name = codeFence | tripleColon

fun MERMAID_PATTERNS :: "pattern_name \<Rightarrow> regex_node list" where
  "MERMAID_PATTERNS codeFence =
     [Lit (js ''```mermaid''), GreedyStar WhiteSpace, Lit (js [CHR 0x0A]),
      CaptureLazyStar AnyChar, Lit (js ''```'')]"
| "MERMAID_PATTERNS tripleColon =
     [Lit (js '':::mermaid''), GreedyStar WhiteSpace, Lit (js [CHR 0x0A]),
      CaptureLazyStar AnyChar, Lit (js '':::'')]"

text \<open>
  The backtracking matcher of ECMAScript. A greedy star takes as many code units of its
  class as it can and gives them back one at a time while the rest of the pattern (the
  continuation \<open>k\<close>) fails; a lazy star takes none and takes one more each time the rest
  fails. Both return the number of code units the star took and the continuation's result.
\<close>

fun greedy_star :: "(jschar \<Rightarrow> bool) \<Rightarrow> (jsstring \<Rightarrow> 'a option) \<Rightarrow> jsstring \<Rightarrow> (nat \<times> 'a) option" where
  "greedy_star p k [] = map_option (Pair 0) (k [])"
| "greedy_star p k (c # cs) =
     (if p c then
        (case greedy_star p k cs of
           Some (n, r) \<Rightarrow> Some (Suc n, r)
         | None \<Rightarrow> map_option (Pair 0) (k (c # cs)))
      else map_option (Pair 0) (k (c # cs)))"

fun lazy_star :: "(jschar \<Rightarrow> bool) \<Rightarrow> (jsstring \<Rightarrow> 'a option) \<Rightarrow> jsstring \<Rightarrow> (nat \<times> 'a) option" where
  "lazy_star p k [] = map_option (Pair 0) (k [])"
| "lazy_star p k (c # cs) =
     (case k (c # cs) of
        Some r \<Rightarrow> Some (0, r)
      | None \<Rightarrow>
          (if p c then map_option (\<lambda>(n, r). (Suc n, r)) (lazy_star p k cs) else None))"

text \<open>
  \<open>match_here nodes s\<close> matches the pattern at the start of \<open>s\<close>: the length of the match
  (\<open>match[0].length\<close>) and the text of the capture group (\<open>match[1]\<close>).
\<close>

primrec match_here :: "regex_node list \<Rightarrow> jsstring \<Rightarrow> (nat \<times> jsstring option) option" where
  "match_here [] = (\<lambda>s. Some (0, None))"
| "match_here (nd # nds) = (\<lambda>s.
     case nd of
       Lit l \<Rightarrow>
         (if take (length l) s = l then
            map_option (\<lambda>(n, cap). (length l + n, cap)) (match_here nds (drop (length l) s))
          else None)
     | GreedyStar cl \<Rightarrow>
         map_option (\<lambda>(m, n, cap). (m + n, cap)) (greedy_star (in_class cl) (match_here nds) s)
     | CaptureLazyStar cl \<Rightarrow>
         map_option (\<lambda>(m, n, cap). (m + n, Some (take m s)))
           (lazy_star (in_class cl) (match_here nds) s))"

text \<open>
  The search of \<open>exec\<close>: the first start position, from the left, at which the pattern
  matches. The result is the distance of the match from the start of \<open>s\<close>, its length and
  its capture.
\<close>

fun search :: "regex_node list \<Rightarrow> jsstring \<Rightarrow> (nat \<times> nat \<times> jsstring option) option" where
  "search nds [] = map_option (Pair 0) (match_here nds [])"
| "search nds (c # cs) =
     (case match_here nds (c # cs) of
        Some m \<Rightarrow> Some (0, m)
      | None \<Rightarrow> map_option (\<lambda>(i, m). (Suc i, m)) (search nds cs))"

text \<open>
  \<open>regex.exec(content)\<close> of a global regular expression whose \<open>lastIndex\<close> is given: the
  match's \<open>index\<close>, the length of \<open>match[0]\<close> and \<open>match[1]\<close>, or \<open>None\<close> for \<open>null\<close>.
\<close>

definition regex_exec :: "regex_node list \<Rightarrow> jsstring \<Rightarrow> nat \<Rightarrow> (nat \<times> nat \<times> jsstring option) option" where
  "regex_exec nds content lastIndex =
     (if length content < lastIndex then None
      else map_option (\<lambda>(i, m). (lastIndex + i, m)) (search nds (drop lastIndex content)))"

section \<open>extractDiagrams\<close>

record MermaidDiagram =
  fullMatch :: jsstring
  code :: jsstring
  startIndex :: int
  endIndex :: int

definition make_diagram :: "jsstring \<Rightarrow> nat \<Rightarrow> nat \<Rightarrow> jsstring option \<Rightarrow> MermaidDiagram" where
  "make_diagram content idx n cap =
     \<lparr> fullMatch = take n (drop idx content),
       code = (case cap of Some c \<Rightarrow> trim c | None \<Rightarrow> []),
       startIndex = int idx,
       endIndex = int idx + int n \<rparr>"

lemma greedy_star_bound:
  "greedy_star p k s = Some (m, r) \<Longrightarrow> m \<le> length s \<and> k (drop m s) = Some r"
  by (induction s arbitrary: m r) (auto split: if_splits option.splits)

lemma lazy_star_bound:
  "lazy_star p k s = Some (m, r) \<Longrightarrow> m \<le> length s \<and> k (drop m s) = Some r"
  by (induction s arbitrary: m r) (auto split: if_splits option.splits)

lemma match_here_le: "match_here nds s = Some (n, cap) \<Longrightarrow> n \<le> length s"
proof (induction nds arbitrary: s n cap)
  case Nil
  then show ?case by simp
next
  case (Cons nd nds)
  show ?case
  proof (cases nd)
    case (Lit l)
    with Cons.prems obtain n' where n': "take (length l) s = l"
      "match_here nds (drop (length l) s) = Some (n', cap)" "n = length l + n'"
      by (auto split: if_splits)
    from Cons.IH [OF n'(2)] have "n' \<le> length s - length l" by simp
    moreover have "length l \<le> length s"
    proof -
      have "length (take (length l) s) = length l" using n'(1) by simp
      then show ?thesis by simp
    qed
    ultimately show ?thesis using n'(3) by simp
  next
    case (GreedyStar cl)
    with Cons.prems obtain m n' cap' where
      g: "greedy_star (in_class cl) (match_here nds) s = Some (m, n', cap')" "n = m + n'"
      by auto
    from greedy_star_bound [OF g(1)] have m: "m \<le> length s"
      and k: "match_here nds (drop m s) = Some (n', cap')" by simp_all
    from Cons.IH [OF k] have "n' \<le> length s - m" by simp
    with m g(2) show ?thesis by arith
  next
    case (CaptureLazyStar cl)
    with Cons.prems obtain m n' cap' where
      g: "lazy_star (in_class cl) (match_here nds) s = Some (m, n', cap')" "n = m + n'"
      by auto
    from lazy_star_bound [OF g(1)] have m: "m \<le> length s"
      and k: "match_here nds (drop m s) = Some (n', cap')" by simp_all
    from Cons.IH [OF k] have "n' \<le> length s - m" by simp
    with m g(2) show ?thesis by arith
  qed
qed

lemma match_here_pattern_pos:
  "match_here (MERMAID_PATTERNS pat) s = Some (n, cap) \<Longrightarrow> 0 < n"
  by (cases pat) (auto simp: js_def split: if_splits)

lemma search_bound:
  "search nds s = Some (i, n, cap) \<Longrightarrow>
     i \<le> length s \<and> match_here nds (drop i s) = Some (n, cap)"
  by (induction s arbitrary: i) (auto split: option.splits)

lemma regex_exec_bound:
  assumes "regex_exec (MERMAID_PATTERNS pat) content lastIndex = Some (idx, n, cap)"
  shows "lastIndex \<le> idx \<and> 0 < n \<and> idx + n \<le> length content \<and>
         match_here (MERMAID_PATTERNS pat) (drop idx content) = Some (n, cap)"
proof -
  from assms obtain i where le: "lastIndex \<le> length content"
    and s: "search (MERMAID_PATTERNS pat) (drop lastIndex content) = Some (i, n, cap)"
    and idx: "idx = lastIndex + i"
    by (auto simp: regex_exec_def split: if_splits)
  from search_bound [OF s] have i: "i \<le> length content - lastIndex"
    and m: "match_here (MERMAID_PATTERNS pat) (drop idx content) = Some (n, cap)"
    by (simp_all add: idx add.commute)
  from match_here_le [OF m] have "n \<le> length content - idx" by simp
  with i le idx match_here_pattern_pos [OF m] m show ?thesis by simp
qed

text \<open>
  The loop \<^verbatim>\<open>while ((match = regex.exec(content)) !== null)\<close> for one pattern: every
  match is pushed, and \<open>exec\<close> leaves \<open>lastIndex\<close> at the end of the match. The loop ends
  because no match of either pattern is empty.
\<close>

function exec_loop :: "pattern_name \<Rightarrow> jsstring \<Rightarrow> nat \<Rightarrow> MermaidDiagram list" where
  "exec_loop pat content lastIndex =
     (case regex_exec (MERMAID_PATTERNS pat) content lastIndex of
        None \<Rightarrow> []
      | Some (idx, n, cap) \<Rightarrow>
          make_diagram content idx n cap # exec_loop pat content (idx + n))"
  by pat_completeness auto
termination
proof (relation "measure (\<lambda>(pat, content, lastIndex). Suc (length content) - lastIndex)")
  show "wf (measure (\<lambda>(pat, content, lastIndex). Suc (length content) - lastIndex))"
    by simp
next
  fix pat content lastIndex x2 idx y n cap
  assume "regex_exec (MERMAID_PATTERNS pat) content lastIndex = Some x2"
    and "(idx, y) = x2" and "(n, cap) = y"
  then have "regex_exec (MERMAID_PATTERNS pat) content lastIndex = Some (idx, n, cap)"
    by simp
  from regex_exec_bound [OF this]
  have "lastIndex \<le> idx" "0 < n" "idx + n \<le> length content" by simp_all
  then have "Suc (length content) - (idx + n) < Suc (length content) - lastIndex" by arith
  then show "((pat, content, idx + n), pat, content, lastIndex)
          \<in> measure (\<lambda>(pat, content, lastIndex). Suc (length content) - lastIndex)"
    by simp
qed

declare exec_loop.simps [simp del]

text \<open>
  \<open>extractDiagrams\<close> runs the loop for both entries of \<open>MERMAID_PATTERNS\<close>, in the order of
  the object's keys, and sorts the matches by \<open>startIndex\<close> (the sort is stable).
\<close>

definition extractDiagrams :: "jsstring \<Rightarrow> MermaidDiagram list" where
  "extractDiagrams content =
     sort_key startIndex (exec_loop codeFence content 0 @ exec_loop tripleColon content 0)"

section \<open>renderDiagram\<close>

text \<open>
  \<open>renderDiagram\<close> talks to the outside world: it creates a temporary directory, writes
  three files, runs \<open>mmdc\<close> as a subprocess under a timeout of 60 seconds and asks whether
  the output file exists. What the world answers to one call is a \<open>render_env\<close>: for each
  awaited operation whether it rejects (and with which message) or what it returns. The
  diagram code and the output path go to the subprocess, whose answer is in the
  environment. \<open>execAsync\<close> rejects when the subprocess exits with a code other than 0 and
  when the timeout kills it.
\<close>

record result =
  success :: bool
  error :: "jsstring option"

datatype exec_outcome = Exited int | TimedOut

record render_env =
  tmp_dir :: "jsstring + jsstring"
  write_input :: "jsstring option"
  write_mermaid_config :: "jsstring option"
  write_puppeteer_config :: "jsstring option"
  exec :: exec_outcome
  exec_message :: jsstring
  output_exists :: bool

text \<open>
  The processor keeps the directory it created in \<open>tempDir\<close>; of its options only
  \<open>outputFormat\<close> is read outside the subprocess command. The temporary directories that
  exist are a set of paths.
\<close>

record MermaidProcessor =
  tempDir :: "jsstring option"
  outputFormat :: jsstring

type_synonym dirs = "jsstring set"

text \<open>
  The body of the \<open>try\<close> block. \<open>Inl\<close> is a thrown error (its message), \<open>Inr\<close> a returned
  value.
\<close>

definition renderDiagram_try ::
  "render_env \<Rightarrow> MermaidProcessor \<Rightarrow> dirs \<Rightarrow> jsstring \<Rightarrow> jsstring
     \<Rightarrow> (jsstring + result) \<times> MermaidProcessor \<times> dirs" where
  "renderDiagram_try env proc ds diagramCode outputPath =
     (case (case tempDir proc of
              Some t \<Rightarrow> Inr (proc, ds)
            | None \<Rightarrow>
                (case tmp_dir env of
                   Inl e \<Rightarrow> Inl e
                 | Inr p \<Rightarrow> Inr (proc\<lparr>tempDir := Some p\<rparr>, insert p ds))) of
        Inl e \<Rightarrow> (Inl e, proc, ds)
      | Inr (proc', ds') \<Rightarrow>
          (case write_input env of
             Some e \<Rightarrow> (Inl e, proc', ds')
           | None \<Rightarrow>
          (case write_mermaid_config env of
             Some e \<Rightarrow> (Inl e, proc', ds')
           | None \<Rightarrow>
          (case write_puppeteer_config env of
             Some e \<Rightarrow> (Inl e, proc', ds')
           | None \<Rightarrow>
          (case exec env of
             TimedOut \<Rightarrow> (Inl (exec_message env), proc', ds')
           | Exited c \<Rightarrow>
               if c \<noteq> 0 then (Inl (exec_message env), proc', ds')
               else if output_exists env then
                 (Inr \<lparr>success = True, error = None\<rparr>, proc', ds')
               else
                 (Inr \<lparr>success = False, error = Some (js ''Output file was not created'')\<rparr>,
                  proc', ds'))))))"

text \<open>The \<open>catch\<close> clause turns every thrown error into a returned failure.\<close>

definition renderDiagram ::
  "render_env \<Rightarrow> MermaidProcessor \<Rightarrow> dirs \<Rightarrow> jsstring \<Rightarrow> jsstring
     \<Rightarrow> (jsstring + result) \<times> MermaidProcessor \<times> dirs" where
  "renderDiagram env proc ds diagramCode outputPath =
     (case renderDiagram_try env proc ds diagramCode outputPath of
        (Inl errorMessage, st) \<Rightarrow> (Inr \<lparr>success = False, error = Some errorMessage\<rparr>, st)
      | (Inr r, st) \<Rightarrow> (Inr r, st))"

text \<open>\<open>cleanup\<close> removes the processor's directory, when it has one and it still exists.\<close>

definition cleanup :: "MermaidProcessor \<Rightarrow> dirs \<Rightarrow> MermaidProcessor \<times> dirs" where
  "cleanup proc ds =
     (case tempDir proc of
        Some t \<Rightarrow> if t \<in> ds then (proc\<lparr>tempDir := None\<rparr>, ds - {t}) else (proc, ds)
      | None \<Rightarrow> (proc, ds))"

section \<open>processMarkdown\<close>

definition imageName :: "jsstring \<Rightarrow> nat \<Rightarrow> jsstring \<Rightarrow> jsstring" where
  "imageName baseFileName i fmt =
     baseFileName @ js ''-diagram-'' @ show_nat (i + 1) @ js ''.'' @ fmt"

definition imageMarkdown :: "nat \<Rightarrow> jsstring \<Rightarrow> jsstring" where
  "imageMarkdown i name = js ''![Diagram '' @ show_nat (i + 1) @ js ''](./'' @ name @ js '')''"

definition error_entry :: "nat \<Rightarrow> result \<Rightarrow> jsstring" where
  "error_entry i r =
     js ''Diagram '' @ show_nat (i + 1) @ js '': '' @
       (case error r of Some e \<Rightarrow> e | None \<Rightarrow> js ''undefined'')"

text \<open>
  What the loop body does with the result of diagram \<open>i\<close>, on the loop variables
  \<open>(processedContent, offset, errors)\<close>.
\<close>

fun splice :: "jsstring \<Rightarrow> jsstring \<Rightarrow> nat \<Rightarrow> MermaidDiagram \<Rightarrow> result
     \<Rightarrow> jsstring \<times> int \<times> jsstring list \<Rightarrow> jsstring \<times> int \<times> jsstring list" where
  "splice baseFileName fmt i diagram r (processedContent, offset, errors) =
     (if success r then
        (let img = imageMarkdown i (imageName baseFileName i fmt);
             adjustedStart = startIndex diagram + offset;
             adjustedEnd = endIndex diagram + offset
         in (substring processedContent 0 adjustedStart @ img @
               substring_from processedContent adjustedEnd,
             offset + (int (length img) - int (length (fullMatch diagram))),
             errors))
      else (processedContent, offset, errors @ [error_entry i r]))"

text \<open>
  The loop over the diagrams, from index \<open>i\<close>. The world answers call \<open>i\<close> of
  \<open>renderDiagram\<close> with \<open>world i\<close>; \<open>join\<close> is \<open>path.join\<close> of the platform. A diagram object
  is never falsy, so the \<open>continue\<close> is never taken.
\<close>

fun processMarkdown_loop ::
  "(nat \<Rightarrow> render_env) \<Rightarrow> (jsstring \<Rightarrow> jsstring \<Rightarrow> jsstring) \<Rightarrow> jsstring \<Rightarrow> jsstring
     \<Rightarrow> nat \<Rightarrow> MermaidDiagram list \<Rightarrow> MermaidProcessor \<Rightarrow> dirs
     \<Rightarrow> jsstring \<times> int \<times> jsstring list
     \<Rightarrow> (jsstring + jsstring \<times> int \<times> jsstring list) \<times> MermaidProcessor \<times> dirs" where
  "processMarkdown_loop world join outputDir baseFileName i [] proc ds vars =
     (Inr vars, proc, ds)"
| "processMarkdown_loop world join outputDir baseFileName i (diagram # rest) proc ds vars =
     (case renderDiagram (world i) proc ds (code diagram)
             (join outputDir (imageName baseFileName i (outputFormat proc))) of
        (Inl e, proc', ds') \<Rightarrow> (Inl e, proc', ds')
      | (Inr r, proc', ds') \<Rightarrow>
          processMarkdown_loop world join outputDir baseFileName (i + 1) rest proc' ds'
            (splice baseFileName (outputFormat proc) i diagram r vars))"

text \<open>
  \<open>processMarkdown\<close> returns \<open>(processedContent, diagramCount, errors)\<close>, or the error that
  escaped.
\<close>

definition processMarkdown ::
  "(nat \<Rightarrow> render_env) \<Rightarrow> (jsstring \<Rightarrow> jsstring \<Rightarrow> jsstring) \<Rightarrow> MermaidProcessor \<Rightarrow> dirs
     \<Rightarrow> jsstring \<Rightarrow> jsstring \<Rightarrow> jsstring
     \<Rightarrow> (jsstring + jsstring \<times> nat \<times> jsstring list) \<times> MermaidProcessor \<times> dirs" where
  "processMarkdown world join proc ds content outputDir baseFileName =
     (let diagrams = extractDiagrams content in
      case processMarkdown_loop world join outputDir baseFileName 0 diagrams proc ds
             (content, 0, []) of
        (Inl e, st) \<Rightarrow> (Inl e, st)
      | (Inr (processedContent, offset, errors), st) \<Rightarrow>
          (Inr (processedContent, length diagrams, errors), st))"

text \<open>
  The results that the calls of \<open>renderDiagram\<close> in the loop return, in order: call \<open>i\<close> runs
  in the processor state that the calls before it left.
\<close>

fun render_results ::
  "(nat \<Rightarrow> render_env) \<Rightarrow> (jsstring \<Rightarrow> jsstring \<Rightarrow> jsstring) \<Rightarrow> jsstring \<Rightarrow> jsstring
     \<Rightarrow> nat \<Rightarrow> MermaidDiagram list \<Rightarrow> MermaidProcessor \<Rightarrow> dirs \<Rightarrow> result list" where
  "render_results world join outputDir baseFileName i [] proc ds = []"
| "render_results world join outputDir baseFileName i (diagram # rest) proc ds =
     (case renderDiagram (world i) proc ds (code diagram)
             (join outputDir (imageName baseFileName i (outputFormat proc))) of
        (Inl e, proc', ds') \<Rightarrow> []
      | (Inr r, proc', ds') \<Rightarrow>
          r # render_results world join outputDir baseFileName (i + 1) rest proc' ds')"

text \<open>A world in which every operation of \<open>renderDiagram\<close> goes well, and one in which
  the subprocess exits with code 1.\<close>

definition env_ok :: render_env where
  "env_ok = \<lparr> tmp_dir = Inr (js ''/tmp/tmp-1''), write_input = None,
     write_mermaid_config = None, write_puppeteer_config = None,
     exec = Exited 0, exec_message = [], output_exists = True \<rparr>"

definition env_fail :: render_env where
  "env_fail = env_ok \<lparr> exec := Exited 1, exec_message := js ''Command failed'',
     output_exists := False \<rparr>"

definition posix_join :: "jsstring \<Rightarrow> jsstring \<Rightarrow> jsstring" where
  "posix_join a b = a @ js ''/'' @ b"

definition proc0 :: MermaidProcessor where
  "proc0 = \<lparr> tempDir = None, outputFormat = js ''png'' \<rparr>"

section \<open>Reference splicing\<close>

text \<open>
  A list of matches of a document, from position \<open>pos\<close> on: every match lies inside the
  text, its \<open>fullMatch\<close> is the text of its span, the matches are in ascending order and
  each one starts at or after the end of the one before it (no two overlap).
\<close>

fun wf_matches :: "jsstring \<Rightarrow> int \<Rightarrow> MermaidDiagram list \<Rightarrow> bool" where
  "wf_matches content pos [] = (0 \<le> pos \<and> pos \<le> int (length content))"
| "wf_matches content pos (d # ds) =
     (0 \<le> pos \<and> pos \<le> startIndex d \<and> startIndex d \<le> endIndex d \<and>
      endIndex d \<le> int (length content) \<and>
      fullMatch d = substring content (startIndex d) (endIndex d) \<and>
      wf_matches content (endIndex d) ds)"

text \<open>
  What the splicing is meant to produce, said on the original text alone: the text
  between the spans stays, a span whose diagram was rendered is replaced by its image
  reference, a span whose diagram failed keeps its original characters. \<open>shift\<close> is the
  net change of length of a list of replacements, \<open>error_entries\<close> the labelled entries
  of the failed diagrams.
\<close>

definition replacement :: "jsstring \<Rightarrow> jsstring \<Rightarrow> nat \<Rightarrow> result \<Rightarrow> jsstring option" where
  "replacement baseFileName fmt i r =
     (if success r then Some (imageMarkdown i (imageName baseFileName i fmt)) else None)"

fun replacements :: "jsstring \<Rightarrow> jsstring \<Rightarrow> nat \<Rightarrow> result list \<Rightarrow> jsstring option list" where
  "replacements baseFileName fmt i [] = []"
| "replacements baseFileName fmt i (r # rs) =
     replacement baseFileName fmt i r # replacements baseFileName fmt (i + 1) rs"

fun error_entries :: "nat \<Rightarrow> result list \<Rightarrow> jsstring list" where
  "error_entries i [] = []"
| "error_entries i (r # rs) =
     (if success r then [] else [error_entry i r]) @ error_entries (i + 1) rs"

fun spliced :: "jsstring \<Rightarrow> int \<Rightarrow> (MermaidDiagram \<times> jsstring option) list \<Rightarrow> jsstring" where
  "spliced content pos [] = substring_from content pos"
| "spliced content pos ((d, rep) # rest) =
     substring content pos (startIndex d) @
     (case rep of Some img \<Rightarrow> img | None \<Rightarrow> substring content (startIndex d) (endIndex d)) @
     spliced content (endIndex d) rest"

fun shift :: "(MermaidDiagram \<times> jsstring option) list \<Rightarrow> int" where
  "shift [] = 0"
| "shift ((d, rep) # rest) =
     (case rep of Some img \<Rightarrow> int (length img) - int (length (fullMatch d)) | None \<Rightarrow> 0) +
     shift rest"

text \<open>
  Two matches overlap when some character of the text belongs to both spans. \<open>in_text\<close>
  says that a match is a non-empty span of the text, with the text of the span as its
  \<open>fullMatch\<close>.
\<close>

definition overlap :: "MermaidDiagram \<Rightarrow> MermaidDiagram \<Rightarrow> bool" where
  "overlap d e \<longleftrightarrow> startIndex d < endIndex e \<and> startIndex e < endIndex d"

fun disjoint_spans :: "MermaidDiagram list \<Rightarrow> bool" where
  "disjoint_spans [] = True"
| "disjoint_spans (d # ds) = (list_all (\<lambda>e. \<not> overlap d e) ds \<and> disjoint_spans ds)"

definition in_text :: "jsstring \<Rightarrow> MermaidDiagram \<Rightarrow> bool" where
  "in_text content d \<longleftrightarrow>
     0 \<le> startIndex d \<and> startIndex d < endIndex d \<and> endIndex d \<le> int (length content) \<and>
     fullMatch d = substring content (startIndex d) (endIndex d)"

text \<open>A document in which a triple-colon block stands inside a code-fence block.\<close>

definition doc_nested :: jsstring where
  "doc_nested = js (''```mermaid'' @ [CHR 0x0A] @ '':::mermaid'' @ [CHR 0x0A] @ ''A-->B'' @
     [CHR 0x0A] @ '':::'' @ [CHR 0x0A] @ ''```'')"

text \<open>The string \<open>s\<close> stands in \<open>text\<close> at position \<open>pos\<close>, character for character.\<close>

definition occurs_at :: "jsstring \<Rightarrow> int \<Rightarrow> jsstring \<Rightarrow> bool" where
  "occurs_at text pos s \<longleftrightarrow> 0 \<le> pos \<and> take (length s) (drop (nat pos) text) = s"

definition world_first_fails :: "nat \<Rightarrow> render_env" where
  "world_first_fails i = (if i = 0 then env_fail else env_ok)"

definition doc_two :: jsstring where
  "doc_two = js (''# T'' @ [CHR 0x0A] @ ''```mermaid'' @ [CHR 0x0A] @ ''A-->B'' @ [CHR 0x0A] @
     ''```'' @ [CHR 0x0A] @ ''mid'' @ [CHR 0x0A] @ '':::mermaid'' @ [CHR 0x0A] @ ''C-->D'' @
     [CHR 0x0A] @ '':::'' @ [CHR 0x0A] @ ''end'')"

definition world_second_fails :: "nat \<Rightarrow> render_env" where
  "world_second_fails i = (if i = 1 then env_fail else env_ok)"

section \<open>convert\<close>

text \<open>
  \<open>String.prototype.replace\<close> with \<^verbatim>\<open>/\.md$/i\<close> and \<open>'.pdf'\<close>: the pattern matches only
  at the end of the string, the letters in either case.
\<close>

definition ends_with_md :: "jsstring \<Rightarrow> bool" where
  "ends_with_md s \<longleftrightarrow>
     3 \<le> length s \<and>
     (let t = drop (length s - 3) s
      in t ! 0 = of_char CHR ''.'' \<and>
         (t ! 1 = of_char CHR ''m'' \<or> t ! 1 = of_char CHR ''M'') \<and>
         (t ! 2 = of_char CHR ''d'' \<or> t ! 2 = of_char CHR ''D''))"

definition replace_md_ext :: "jsstring \<Rightarrow> jsstring" where
  "replace_md_ext s = (if ends_with_md s then take (length s - 3) s @ js ''.pdf'' else s)"

text \<open>The functions of the platform's \<open>path\<close> module that \<open>convert\<close> calls.\<close>

record path_lib =
  path_resolve :: "jsstring \<Rightarrow> jsstring"
  path_join :: "jsstring \<Rightarrow> jsstring \<Rightarrow> jsstring"
  path_basename :: "jsstring \<Rightarrow> jsstring"
  path_basename_ext :: "jsstring \<Rightarrow> jsstring \<Rightarrow> jsstring"
  path_extname :: "jsstring \<Rightarrow> jsstring"
  path_dirname :: "jsstring \<Rightarrow> jsstring"

text \<open>
  \<open>resolvedOutput\<close>: an output path that is given (and not the empty string, which is
  falsy) is resolved; otherwise the resolved input path with its extension replaced.
\<close>

definition resolvedOutput :: "path_lib \<Rightarrow> jsstring \<Rightarrow> jsstring option \<Rightarrow> jsstring" where
  "resolvedOutput pl inputPath outputPath =
     (case outputPath of
        Some p \<Rightarrow> if p \<noteq> [] then path_resolve pl p else replace_md_ext (path_resolve pl inputPath)
      | None \<Rightarrow> replace_md_ext (path_resolve pl inputPath))"

record ConversionResult = result +
  inputFile :: jsstring
  outputFile :: "jsstring option"
  diagramCount :: "nat option"

text \<open>
  What the world answers to one call of \<open>convert\<close>: whether the input file exists, what
  reading it gives, the directory that \<open>tmp.dir\<close> creates, the answers to the calls of
  \<open>renderDiagram\<close>, whether writing the processed markdown and copying the local assets
  reject, what \<open>pdfGenerator.generate\<close> returns for the two paths it is given (it catches
  every error itself), and whether removing the working directory rejects.
\<close>

record convert_env =
  input_exists :: bool
  read_input :: "jsstring + jsstring"
  work_dir :: "jsstring + jsstring"
  renders :: "nat \<Rightarrow> render_env"
  write_processed :: "jsstring option"
  copy_assets :: "jsstring option"
  generate :: "jsstring \<Rightarrow> jsstring \<Rightarrow> result"
  remove_work_dir :: "jsstring option"

definition conversion_ok :: "jsstring \<Rightarrow> jsstring \<Rightarrow> nat \<Rightarrow> ConversionResult" where
  "conversion_ok resolvedInput out n =
     \<lparr> success = True, error = None, inputFile = resolvedInput, outputFile = Some out,
       diagramCount = Some n \<rparr>"

definition conversion_failed :: "jsstring \<Rightarrow> jsstring \<Rightarrow> ConversionResult" where
  "conversion_failed resolvedInput errorMessage =
     \<lparr> success = False, error = Some errorMessage, inputFile = resolvedInput,
       outputFile = None, diagramCount = None \<rparr>"

text \<open>
  The \<open>try\<close> block of \<open>convert\<close>; \<open>Inl\<close> is a thrown error. \<open>keepIntermediate\<close> is the option
  of the converter. The durations and the log lines are left out.
\<close>

definition convert_try ::
  "path_lib \<Rightarrow> convert_env \<Rightarrow> bool \<Rightarrow> MermaidProcessor \<Rightarrow> dirs \<Rightarrow> jsstring \<Rightarrow> jsstring option
     \<Rightarrow> (jsstring + ConversionResult) \<times> MermaidProcessor \<times> dirs" where
  "convert_try pl env keepIntermediate proc ds inputPath outputPath =
     (let resolvedInput = path_resolve pl inputPath;
          resolvedOut = resolvedOutput pl inputPath outputPath
      in if \<not> input_exists env then
           (Inl (js ''Input file not found: '' @ resolvedInput), proc, ds)
         else
           (case read_input env of
              Inl e \<Rightarrow> (Inl e, proc, ds)
            | Inr content \<Rightarrow>
           (case work_dir env of
              Inl e \<Rightarrow> (Inl e, proc, ds)
            | Inr workDir \<Rightarrow>
           (let tempInputPath = path_join pl workDir (path_basename pl resolvedInput);
                baseFileName = path_basename_ext pl resolvedInput (path_extname pl resolvedInput)
            in case processMarkdown (renders env) (path_join pl) proc (insert workDir ds)
                      content workDir baseFileName of
                 (Inl e, proc', ds') \<Rightarrow> (Inl e, proc', ds')
               | (Inr (processedContent, dCount, errors), proc', ds') \<Rightarrow>
           (case write_processed env of
              Some e \<Rightarrow> (Inl e, proc', ds')
            | None \<Rightarrow>
           (case copy_assets env of
              Some e \<Rightarrow> (Inl e, proc', ds')
            | None \<Rightarrow>
           (let r = generate env tempInputPath resolvedOut
            in if \<not> success r then
                 (Inl (case error r of Some e \<Rightarrow> e | None \<Rightarrow> js ''PDF generation failed''),
                  proc', ds')
               else if \<not> keepIntermediate then
                 (case remove_work_dir env of
                    Some e \<Rightarrow> (Inl e, proc', ds')
                  | None \<Rightarrow>
                      (Inr (conversion_ok resolvedInput resolvedOut dCount), proc',
                       ds' - {workDir}))
               else (Inr (conversion_ok resolvedInput resolvedOut dCount), proc', ds'))))))))"

text \<open>
  \<open>convert\<close>: the \<open>catch\<close> clause turns a thrown error into a failed result, and the
  \<open>finally\<close> clause calls \<open>cleanup\<close> of the Mermaid processor on every path.
\<close>

definition convert ::
  "path_lib \<Rightarrow> convert_env \<Rightarrow> bool \<Rightarrow> MermaidProcessor \<Rightarrow> dirs \<Rightarrow> jsstring \<Rightarrow> jsstring option
     \<Rightarrow> ConversionResult \<times> MermaidProcessor \<times> dirs" where
  "convert pl env keepIntermediate proc ds inputPath outputPath =
     (case convert_try pl env keepIntermediate proc ds inputPath outputPath of
        (outcome, proc', ds') \<Rightarrow>
          (case cleanup proc' ds' of
             (proc'', ds'') \<Rightarrow>
               (case outcome of
                  Inl errorMessage \<Rightarrow>
                    conversion_failed (path_resolve pl inputPath) errorMessage
                | Inr r \<Rightarrow> r,
                proc'', ds'')))"

text \<open>
  The \<open>path\<close> functions on absolute, normalised POSIX paths, for the example worlds.
\<close>

definition posix_basename :: "jsstring \<Rightarrow> jsstring" where
  "posix_basename p = rev (takeWhile (\<lambda>c. c \<noteq> of_char CHR ''/'') (rev p))"

definition posix_extname :: "jsstring \<Rightarrow> jsstring" where
  "posix_extname p =
     (let b = posix_basename p;
          e = rev (takeWhile (\<lambda>c. c \<noteq> of_char CHR ''.'') (rev b))
      in if length e + 1 < length b then of_char CHR ''.'' # e else [])"

definition posix_basename_ext :: "jsstring \<Rightarrow> jsstring \<Rightarrow> jsstring" where
  "posix_basename_ext p e =
     (let b = posix_basename p
      in if length e < length b \<and> drop (length b - length e) b = e
         then take (length b - length e) b else b)"

definition posix_dirname :: "jsstring \<Rightarrow> jsstring" where
  "posix_dirname p = take (length p - length (posix_basename p) - 1) p"

definition posix :: path_lib where
  "posix = \<lparr> path_resolve = (\<lambda>p. p), path_join = posix_join,
     path_basename = posix_basename, path_basename_ext = posix_basename_ext,
     path_extname = posix_extname, path_dirname = posix_dirname \<rparr>"

text \<open>
  A world in which the input exists and every step goes well, and one in which the PDF
  generator reports a failure.
\<close>

definition env_convert_ok :: convert_env where
  "env_convert_ok = \<lparr> input_exists = True, read_input = Inr doc_two,
     work_dir = Inr (js ''/tmp/tmp-0''), renders = (\<lambda>i. env_ok), write_processed = None,
     copy_assets = None, generate = (\<lambda>md out. \<lparr>success = True, error = None\<rparr>),
     remove_work_dir = None \<rparr>"

definition env_pdf_fails :: convert_env where
  "env_pdf_fails = env_convert_ok \<lparr> generate :=
     (\<lambda>md out. \<lparr>success = False, error = Some (js ''PDF generation returned no content'')\<rparr>) \<rparr>"

text \<open>
  A world whose PDF generator succeeds only when it is given the processed copy of
  \<open>/docs/notes.txt\<close> as its source and \<open>/docs/notes.txt\<close> itself as its destination.
\<close>

definition env_writes_source :: convert_env where
  "env_writes_source = env_convert_ok \<lparr> generate :=
     (\<lambda>md out. if md = js ''/tmp/tmp-0/notes.txt'' \<and> out = js ''/docs/notes.txt''
        then \<lparr>success = True, error = None\<rparr>
        else \<lparr>success = False, error = Some (js ''wrong destination'')\<rparr>) \<rparr>"

section \<open>Properties of renderDiagram\<close>

text \<open>
  The subprocess has run to a normal end: the processor had, or got, its directory, the
  three files were written and \<open>mmdc\<close> exited with code 0.
\<close>

definition subprocess_completes :: "render_env \<Rightarrow> MermaidProcessor \<Rightarrow> bool" where
  "subprocess_completes env proc \<longleftrightarrow>
     (tempDir proc \<noteq> None \<or> \<not> isl (tmp_dir env)) \<and> write_input env = None \<and>
     write_mermaid_config env = None \<and> write_puppeteer_config env = None \<and>
     exec env = Exited 0"

text \<open>
  C6. \<open>renderDiagram\<close> never throws: in every world it returns a value. A timeout of the
  subprocess, an exit code other than 0 and a missing output file each give
  \<open>success = false\<close> with an error message. It returns \<open>success = true\<close> exactly when the
  subprocess ran to its end with exit code 0 and the output file exists afterwards.
\<close>

theorem renderDiagram_never_throws:
  "\<exists>r. fst (renderDiagram env proc ds diagramCode outputPath) = Inr r \<and>
       (exec env = TimedOut \<longrightarrow> \<not> success r \<and> error r \<noteq> None) \<and>
       ((\<exists>n. exec env = Exited n \<and> n \<noteq> 0) \<longrightarrow> \<not> success r \<and> error r \<noteq> None) \<and>
       (\<not> output_exists env \<longrightarrow> \<not> success r \<and> error r \<noteq> None) \<and>
       (success r \<longleftrightarrow> subprocess_completes env proc \<and> output_exists env)"
  by (auto simp: renderDiagram_def renderDiagram_try_def subprocess_completes_def
      split: prod.splits sum.splits option.splits exec_outcome.splits if_splits)

theorem renderDiagram_never_throws_witness:
  "fst (renderDiagram (env_ok\<lparr>exec := TimedOut, exec_message := js ''timeout''\<rparr>) proc0 {} [] []) =
     Inr \<lparr>success = False, error = Some (js ''timeout'')\<rparr> \<and>
   fst (renderDiagram env_fail proc0 {} [] []) =
     Inr \<lparr>success = False, error = Some (js ''Command failed'')\<rparr> \<and>
   fst (renderDiagram (env_ok\<lparr>output_exists := False\<rparr>) proc0 {} [] []) =
     Inr \<lparr>success = False, error = Some (js ''Output file was not created'')\<rparr> \<and>
   fst (renderDiagram env_ok proc0 {} [] []) = Inr \<lparr>success = True, error = None\<rparr> \<and>
   subprocess_completes env_ok proc0 \<and> output_exists env_ok"
  using renderDiagram_never_throws [of "env_ok\<lparr>exec := TimedOut, exec_message := js ''timeout''\<rparr>" proc0 "{}" "[]" "[]"]
    renderDiagram_never_throws [of env_fail proc0 "{}" "[]" "[]"]
    renderDiagram_never_throws [of "env_ok\<lparr>output_exists := False\<rparr>" proc0 "{}" "[]" "[]"]
    renderDiagram_never_throws [of env_ok proc0 "{}" "[]" "[]"]
  by (simp add: renderDiagram_def renderDiagram_try_def subprocess_completes_def env_ok_def
      env_fail_def proc0_def)

section \<open>Properties of processMarkdown\<close>

text \<open>
  C8. A document in which neither pattern matches comes back unchanged, character for
  character, with \<open>diagramCount = 0\<close> and no error entry; the processor and the
  directories are untouched.
\<close>

theorem processMarkdown_no_diagrams:
  "extractDiagrams content = [] \<Longrightarrow>
   processMarkdown world join proc ds content outputDir baseFileName =
     (Inr (content, 0, []), proc, ds)"
  by (simp add: processMarkdown_def)

theorem processMarkdown_no_diagrams_witness:
  "extractDiagrams (js ''# No diagrams here'') = [] \<and>
   processMarkdown (\<lambda>i. env_ok) posix_join proc0 {}
       (js ''# No diagrams here'') (js ''/tmp/work'') (js ''test'') =
     (Inr (js ''# No diagrams here'', 0, []), proc0, {})"
proof -
  have h: "extractDiagrams (js ''# No diagrams here'') = []" by code_simp
  show ?thesis using h processMarkdown_no_diagrams [OF h] by simp
qed

lemma substring_take_drop:
  "0 \<le> a \<Longrightarrow> a \<le> b \<Longrightarrow> b \<le> int (length s) \<Longrightarrow>
   substring s a b = take (nat b - nat a) (drop (nat a) s)"
  by (simp add: substring_def clamp_index_def Let_def min_def max_def nat_le_iff)

lemma substring_from_drop:
  "0 \<le> a \<Longrightarrow> substring_from s a = drop (nat a) s"
  by (cases "a \<le> int (length s)") (simp_all add: substring_from_def clamp_index_def min_def max_def)

lemma substring_length:
  "0 \<le> a \<Longrightarrow> a \<le> b \<Longrightarrow> b \<le> int (length s) \<Longrightarrow> int (length (substring s a b)) = b - a"
  by (simp add: substring_take_drop) 

lemma substring_0_append:
  "0 \<le> k \<Longrightarrow> k \<le> int (length t) \<Longrightarrow>
   substring (dn @ t) 0 (int (length dn) + k) = dn @ take (nat k) t"
  by (simp add: substring_take_drop nat_add_distrib)

lemma substring_from_append:
  "0 \<le> k \<Longrightarrow> substring_from (dn @ t) (int (length dn) + k) = drop (nat k) t"
  by (simp add: substring_from_drop nat_add_distrib)

lemma drop_split3:
  assumes "a \<le> b" "b \<le> c"
  shows "drop a s = take (b - a) (drop a s) @ take (c - b) (drop b s) @ drop c s"
proof -
  have "drop a s = take (b - a) (drop a s) @ drop (b - a) (drop a s)"
    by (rule append_take_drop_id [symmetric])
  also have "drop (b - a) (drop a s) = drop b s" using assms(1) by simp
  also have "drop b s = take (c - b) (drop b s) @ drop (c - b) (drop b s)"
    by (rule append_take_drop_id [symmetric])
  also have "drop (c - b) (drop b s) = drop c s" using assms(2) by simp
  finally show ?thesis .
qed

lemma renderDiagram_Inr: "\<exists>r proc' ds'. renderDiagram env proc ds c p = (Inr r, proc', ds')"
  by (simp add: renderDiagram_def split: prod.splits sum.splits)

lemma renderDiagram_outputFormat:
  "renderDiagram env proc ds c p = (x, proc', ds') \<Longrightarrow> outputFormat proc' = outputFormat proc"
  by (auto simp: renderDiagram_def renderDiagram_try_def
      split: prod.splits sum.splits option.splits exec_outcome.splits if_splits)

lemma splice_step:
  assumes "0 \<le> pos" "pos \<le> startIndex d" "startIndex d \<le> endIndex d"
    "endIndex d \<le> int (length content)"
    "fullMatch d = substring content (startIndex d) (endIndex d)"
    "off = int (length dn) - pos"
  shows "splice base fmt i d r (dn @ substring_from content pos, off, errs) =
     (let rep = replacement base fmt i r;
          dn' = dn @ substring content pos (startIndex d) @
            (case rep of Some img \<Rightarrow> img | None \<Rightarrow> substring content (startIndex d) (endIndex d))
      in (dn' @ substring_from content (endIndex d),
          off + shift [(d, rep)],
          errs @ error_entries i [r]))"
proof (cases "success r")
  case True
  have t: "substring_from content pos = drop (nat pos) content"
    using assms(1) by (simp add: substring_from_drop)
  have s: "startIndex d + off = int (length dn) + (startIndex d - pos)"
    and e: "endIndex d + off = int (length dn) + (endIndex d - pos)"
    using assms(6) by simp_all
  have a: "substring (dn @ substring_from content pos) 0 (startIndex d + off) =
      dn @ substring content pos (startIndex d)"
    unfolding s t using assms(1-4)
    by (subst substring_0_append) (simp_all add: substring_take_drop nat_diff_distrib)
  have b: "substring_from (dn @ substring_from content pos) (endIndex d + off) =
      substring_from content (endIndex d)"
    unfolding e t using assms(1-4)
    by (subst substring_from_append) (simp_all add: substring_from_drop nat_diff_distrib)
  have l: "int (length (fullMatch d)) = endIndex d - startIndex d"
    using assms(1-5) by (simp add: substring_length)
  show ?thesis using True a b l assms(6)
    by (simp add: Let_def replacement_def)
next
  case False
  have "substring_from content pos =
      substring content pos (startIndex d) @ substring content (startIndex d) (endIndex d) @
      substring_from content (endIndex d)"
    using assms(1-4)
    by (simp add: substring_from_drop substring_take_drop drop_split3 nat_mono)
  then show ?thesis using False by (simp add: Let_def replacement_def)
qed


lemma loop_invariant:
  assumes "wf_matches content pos ds" "off = int (length dn) - pos"
  shows "\<exists>st. processMarkdown_loop world join outputDir base i ds proc dirs
            (dn @ substring_from content pos, off, errs) =
     (let rs = render_results world join outputDir base i ds proc dirs;
          reps = zip ds (replacements base (outputFormat proc) i rs)
      in (Inr (dn @ spliced content pos reps, off + shift reps, errs @ error_entries i rs), st))"
  using assms
proof (induction ds arbitrary: pos off dn errs i proc dirs)
  case Nil
  then show ?case by simp
next
  case (Cons d ds)
  obtain r proc' dirs' where rd: "renderDiagram (world i) proc dirs (code d)
      (join outputDir (imageName base i (outputFormat proc))) = (Inr r, proc', dirs')"
    using renderDiagram_Inr by blast
  have fmt: "outputFormat proc' = outputFormat proc"
    using renderDiagram_outputFormat [OF rd] .
  define rep where "rep = replacement base (outputFormat proc) i r"
  define dn' where "dn' = dn @ substring content pos (startIndex d) @
      (case rep of Some img \<Rightarrow> img | None \<Rightarrow> substring content (startIndex d) (endIndex d))"
  from Cons.prems(1) have w: "0 \<le> pos" "pos \<le> startIndex d" "startIndex d \<le> endIndex d"
    "endIndex d \<le> int (length content)"
    "fullMatch d = substring content (startIndex d) (endIndex d)"
    and wf': "wf_matches content (endIndex d) ds"
    by simp_all
  have step: "splice base (outputFormat proc) i d r (dn @ substring_from content pos, off, errs) =
      (dn' @ substring_from content (endIndex d), off + shift [(d, rep)],
       errs @ error_entries i [r])"
    using splice_step [OF w Cons.prems(2)] by (simp add: Let_def rep_def dn'_def)
  have len: "int (length (fullMatch d)) = endIndex d - startIndex d"
    using w by (simp add: substring_length)
  have len2: "int (length (substring content pos (startIndex d))) = startIndex d - pos"
    using w by (simp add: substring_length)
  have len3: "int (length (substring content (startIndex d) (endIndex d))) = endIndex d - startIndex d"
    using w by (simp add: substring_length)
  have off': "off + shift [(d, rep)] = int (length dn') - endIndex d"
    using Cons.prems(2) len len2 len3 by (cases rep) (simp_all add: dn'_def)
  define rs' where "rs' = render_results world join outputDir base (i + 1) ds proc' dirs'"
  define reps' where "reps' = zip ds (replacements base (outputFormat proc) (i + 1) rs')"
  from Cons.IH [OF wf' off', where i = "i + 1" and proc = proc' and dirs = dirs'
      and errs = "errs @ error_entries i [r]"]
  obtain st where ih: "processMarkdown_loop world join outputDir base (i + 1) ds proc' dirs'
      (dn' @ substring_from content (endIndex d), off + shift [(d, rep)], errs @ error_entries i [r]) =
     (Inr (dn' @ spliced content (endIndex d) reps', off + shift [(d, rep)] + shift reps',
               (errs @ error_entries i [r]) @ error_entries (i + 1) rs'), st)"
    unfolding Let_def fmt rs'_def reps'_def by blast
  have lhs: "processMarkdown_loop world join outputDir base i (d # ds) proc dirs
      (dn @ substring_from content pos, off, errs) =
    processMarkdown_loop world join outputDir base (i + 1) ds proc' dirs'
      (dn' @ substring_from content (endIndex d), off + shift [(d, rep)], errs @ error_entries i [r])"
    using rd step by (simp del: splice.simps)
  have rs: "render_results world join outputDir base i (d # ds) proc dirs = r # rs'"
    using rd by (simp add: rs'_def)
  have reps: "zip (d # ds) (replacements base (outputFormat proc) i (r # rs')) = (d, rep) # reps'"
    by (simp add: rep_def reps'_def)
  have "processMarkdown_loop world join outputDir base i (d # ds) proc dirs
      (dn @ substring_from content pos, off, errs) =
     (Inr (dn @ spliced content pos ((d, rep) # reps'), off + shift ((d, rep) # reps'),
           errs @ error_entries i (r # rs')), st)"
    unfolding lhs ih by (simp add: dn'_def)
  then show ?case unfolding Let_def rs reps by blast
qed


text \<open>
  C1. For every document text and every list of its matches that is sorted by start offset
  and free of overlaps, the loop of \<open>processMarkdown\<close>, which starts with \<open>offset = 0\<close>,
  splices match \<open>i\<close> at \<open>startIndex + offset\<close> and \<open>endIndex + offset\<close> and adds the
  difference of the two lengths to \<open>offset\<close> after a successful render, returns the
  reference splicing: every replacement lies exactly over the original span of its match,
  whatever the lengths of the earlier replacements, and the final offset is the net change
  of length.
\<close>

theorem processMarkdown_loop_splices:
  assumes "wf_matches content 0 ds"
  shows "\<exists>st. processMarkdown_loop world join outputDir baseFileName 0 ds proc dirs
              (content, 0, []) =
     (let rs = render_results world join outputDir baseFileName 0 ds proc dirs;
          reps = zip ds (replacements baseFileName (outputFormat proc) 0 rs)
      in (Inr (spliced content 0 reps, shift reps, error_entries 0 rs), st))"
  using loop_invariant [OF assms, of 0 "[]" world join outputDir baseFileName 0 proc dirs "[]"]
  by (simp add: substring_from_drop)

theorem processMarkdown_loop_splices_witness:
  "wf_matches doc_two 0 (extractDiagrams doc_two) \<and>
   fst (processMarkdown_loop world_second_fails posix_join (js ''/tmp/work'') (js ''doc'') 0
          (extractDiagrams doc_two) proc0 {} (doc_two, 0, [])) =
     Inr (js (''# T'' @ [CHR 0x0A] @ ''![Diagram 1](./doc-diagram-1.png)'' @ [CHR 0x0A] @
              ''mid'' @ [CHR 0x0A] @ '':::mermaid'' @ [CHR 0x0A] @ ''C-->D'' @ [CHR 0x0A] @
              '':::'' @ [CHR 0x0A] @ ''end''),
          13, [js ''Diagram 2: Command failed''])"
proof -
  have h: "wf_matches doc_two 0 (extractDiagrams doc_two)" by code_simp
  have e: "(let rs = render_results world_second_fails posix_join (js ''/tmp/work'') (js ''doc'') 0
                 (extractDiagrams doc_two) proc0 {};
               reps = zip (extractDiagrams doc_two) (replacements (js ''doc'') (outputFormat proc0) 0 rs)
           in (spliced doc_two 0 reps, shift reps, error_entries 0 rs)) =
     (js (''# T'' @ [CHR 0x0A] @ ''![Diagram 1](./doc-diagram-1.png)'' @ [CHR 0x0A] @
              ''mid'' @ [CHR 0x0A] @ '':::mermaid'' @ [CHR 0x0A] @ ''C-->D'' @ [CHR 0x0A] @
              '':::'' @ [CHR 0x0A] @ ''end''),
          13, [js ''Diagram 2: Command failed''])"
    by code_simp
  from processMarkdown_loop_splices [OF h, of world_second_fails posix_join "js ''/tmp/work''"
      "js ''doc''" proc0 "{}"]
  obtain st where "processMarkdown_loop world_second_fails posix_join (js ''/tmp/work'') (js ''doc'') 0
          (extractDiagrams doc_two) proc0 {} (doc_two, 0, []) =
     (let rs = render_results world_second_fails posix_join (js ''/tmp/work'') (js ''doc'') 0
                 (extractDiagrams doc_two) proc0 {};
          reps = zip (extractDiagrams doc_two) (replacements (js ''doc'') (outputFormat proc0) 0 rs)
      in (Inr (spliced doc_two 0 reps, shift reps, error_entries 0 rs), st))"
    by blast
  then have "fst (processMarkdown_loop world_second_fails posix_join (js ''/tmp/work'') (js ''doc'') 0
          (extractDiagrams doc_two) proc0 {} (doc_two, 0, [])) =
     Inr (let rs = render_results world_second_fails posix_join (js ''/tmp/work'') (js ''doc'') 0
                 (extractDiagrams doc_two) proc0 {};
               reps = zip (extractDiagrams doc_two) (replacements (js ''doc'') (outputFormat proc0) 0 rs)
           in (spliced doc_two 0 reps, shift reps, error_entries 0 rs))"
    by (simp add: Let_def)
  with h show ?thesis unfolding e by simp
qed

section \<open>Properties of extractDiagrams\<close>

lemma make_diagram_in_text:
  assumes "0 < n" "idx + n \<le> length content"
  shows "in_text content (make_diagram content idx n cap)"
  using assms by (simp add: in_text_def make_diagram_def substring_take_drop nat_add_distrib)

lemma exec_loop_in_text: "d \<in> set (exec_loop pat content lastIndex) \<Longrightarrow> in_text content d"
proof (induction pat content lastIndex rule: exec_loop.induct)
  case (1 pat content lastIndex)
  show ?case
  proof (cases "regex_exec (MERMAID_PATTERNS pat) content lastIndex")
    case None
    with "1.prems" show ?thesis by (simp add: exec_loop.simps [of pat content lastIndex])
  next
    case (Some m)
    obtain idx n cap where m: "m = (idx, n, cap)" by (cases m) auto
    from regex_exec_bound [OF Some [unfolded m]]
    have b: "0 < n" "idx + n \<le> length content" by simp_all
    from "1.prems" Some m
    have "d = make_diagram content idx n cap \<or> d \<in> set (exec_loop pat content (idx + n))"
      by (simp add: exec_loop.simps [of pat content lastIndex])
    then show ?thesis
      using make_diagram_in_text [OF b] "1.IH" [OF Some m [symmetric] refl] by blast
  qed
qed

lemma exec_loop_wf:
  "lastIndex \<le> length content \<Longrightarrow>
   wf_matches content (int lastIndex) (exec_loop pat content lastIndex)"
proof (induction pat content lastIndex rule: exec_loop.induct)
  case (1 pat content lastIndex)
  show ?case
  proof (cases "regex_exec (MERMAID_PATTERNS pat) content lastIndex")
    case None
    with "1.prems" show ?thesis by (simp add: exec_loop.simps [of pat content lastIndex])
  next
    case (Some m)
    obtain idx n cap where m: "m = (idx, n, cap)" by (cases m) auto
    from regex_exec_bound [OF Some [unfolded m]]
    have b: "lastIndex \<le> idx" "0 < n" "idx + n \<le> length content" by simp_all
    have ih: "wf_matches content (int (idx + n)) (exec_loop pat content (idx + n))"
      using "1.IH" [OF Some m [symmetric] refl] b by simp
    have e: "exec_loop pat content lastIndex =
        make_diagram content idx n cap # exec_loop pat content (idx + n)"
      using Some m by (simp add: exec_loop.simps [of pat content lastIndex])
    have it: "in_text content (make_diagram content idx n cap)"
      using make_diagram_in_text [OF b(2,3)] .
    have ei: "endIndex (make_diagram content idx n cap) = int (idx + n)"
      and si: "startIndex (make_diagram content idx n cap) = int idx"
      by (simp_all add: make_diagram_def)
    show ?thesis unfolding e using it ih b
      by (simp add: in_text_def ei si)
  qed
qed

lemma wf_matches_lower:
  "wf_matches content pos ds \<Longrightarrow> e \<in> set ds \<Longrightarrow> pos \<le> startIndex e"
proof (induction ds arbitrary: pos)
  case Nil
  then show ?case by simp
next
  case (Cons d ds)
  show ?case
  proof (cases "e = d")
    case True
    with Cons.prems show ?thesis by simp
  next
    case False
    with Cons.prems have "e \<in> set ds" "wf_matches content (endIndex d) ds" by simp_all
    from Cons.IH [OF this(2,1)] Cons.prems(1) show ?thesis by simp
  qed
qed

lemma wf_matches_disjoint: "wf_matches content pos ds \<Longrightarrow> disjoint_spans ds"
proof (induction ds arbitrary: pos)
  case Nil
  then show ?case by simp
next
  case (Cons d ds)
  then have w: "wf_matches content (endIndex d) ds" by simp
  have "\<not> overlap d e" if "e \<in> set ds" for e
    using wf_matches_lower [OF w that] by (simp add: overlap_def)
  then show ?case using Cons.IH [OF w] by (simp add: list_all_iff)
qed

lemma sorted_disjoint_wf:
  assumes "\<forall>d\<in>set ds. in_text content d" "sorted (map startIndex ds)" "disjoint_spans ds"
    "0 \<le> pos" "pos \<le> int (length content)" "\<forall>d\<in>set ds. pos \<le> startIndex d"
  shows "wf_matches content pos ds"
  using assms
proof (induction ds arbitrary: pos)
  case Nil
  then show ?case by simp
next
  case (Cons d ds)
  have d: "in_text content d" using Cons.prems(1) by simp
  have later: "endIndex d \<le> startIndex e" if "e \<in> set ds" for e
  proof -
    have "startIndex d \<le> startIndex e" using Cons.prems(2) that by simp
    moreover have "\<not> overlap d e" using Cons.prems(3) that by (simp add: list_all_iff)
    moreover have "startIndex e < endIndex e" using Cons.prems(1) that by (simp add: in_text_def)
    ultimately show ?thesis by (simp add: overlap_def)
  qed
  have "wf_matches content (endIndex d) ds"
    using Cons.prems(1,2,3) d later by (intro Cons.IH) (simp_all add: in_text_def)
  then show ?case using d Cons.prems(6) Cons.prems(4) by (simp add: in_text_def)
qed

lemma extractDiagrams_set:
  "set (extractDiagrams content) =
     set (exec_loop codeFence content 0) \<union> set (exec_loop tripleColon content 0)"
  by (simp add: extractDiagrams_def)

lemma extractDiagrams_wf:
  assumes "disjoint_spans (extractDiagrams content)"
  shows "wf_matches content 0 (extractDiagrams content)"
proof (rule sorted_disjoint_wf [OF _ _ assms])
  show "\<forall>d\<in>set (extractDiagrams content). in_text content d"
    using exec_loop_in_text by (auto simp: extractDiagrams_set)
  then show "\<forall>d\<in>set (extractDiagrams content). 0 \<le> startIndex d"
    by (simp add: in_text_def)
  show "sorted (map startIndex (extractDiagrams content))"
    by (simp add: extractDiagrams_def)
qed simp_all

text \<open>
  C5, as stated, fails: in the nested document the code-fence match spans the whole text
  and the triple-colon match lies inside it.
\<close>

theorem extractDiagrams_overlap_counterexample:
  "\<not> disjoint_spans (extractDiagrams doc_nested)"
  by code_simp

text \<open>
  C5, amended. For every input text, \<open>extractDiagrams\<close> returns the matches of both
  delimiter syntaxes, each as often as it was found, sorted by start offset ascending; the
  spans of the matches of one and the same syntax are pairwise non-overlapping.
\<close>

theorem extractDiagrams_sorted_union:
  "mset (extractDiagrams content) =
     mset (exec_loop codeFence content 0) + mset (exec_loop tripleColon content 0) \<and>
   sorted (map startIndex (extractDiagrams content)) \<and>
   disjoint_spans (exec_loop codeFence content 0) \<and>
   disjoint_spans (exec_loop tripleColon content 0)"
  using wf_matches_disjoint [OF exec_loop_wf [of 0 content codeFence]]
    wf_matches_disjoint [OF exec_loop_wf [of 0 content tripleColon]]
  by (simp add: extractDiagrams_def)

theorem extractDiagrams_sorted_union_witness:
  "mset (extractDiagrams doc_nested) =
     mset (exec_loop codeFence doc_nested 0) + mset (exec_loop tripleColon doc_nested 0) \<and>
   sorted (map startIndex (extractDiagrams doc_nested)) \<and>
   disjoint_spans (exec_loop codeFence doc_nested 0) \<and>
   disjoint_spans (exec_loop tripleColon doc_nested 0)"
  by (rule extractDiagrams_sorted_union)

section \<open>Failure isolation\<close>

lemma occurs_at_append: "occurs_at (a @ s @ b) (int (length a)) s"
  by (simp add: occurs_at_def)

lemma length_replacements [simp]: "length (replacements base fmt i rs) = length rs"
  by (induction rs arbitrary: i) simp_all

lemma nth_replacements:
  "j < length rs \<Longrightarrow> replacements base fmt i rs ! j = replacement base fmt (i + j) (rs ! j)"
proof (induction rs arbitrary: i j)
  case Nil
  then show ?case by simp
next
  case (Cons r rs)
  then show ?case by (cases j) simp_all
qed

lemma error_entries_member:
  "k < length rs \<Longrightarrow> \<not> success (rs ! k) \<Longrightarrow>
   error_entry (i + k) (rs ! k) \<in> set (error_entries i rs)"
proof (induction rs arbitrary: i k)
  case Nil
  then show ?case by simp
next
  case (Cons r rs)
  show ?case
  proof (cases k)
    case 0
    with Cons.prems show ?thesis by simp
  next
    case (Suc k')
    with Cons.prems Cons.IH [of k' "i + 1"] show ?thesis by simp
  qed
qed

lemma length_render_results [simp]:
  "length (render_results world join outputDir base i ds proc dirs) = length ds"
proof (induction ds arbitrary: i proc dirs)
  case Nil
  then show ?case by simp
next
  case (Cons d ds)
  obtain r proc' dirs' where "renderDiagram (world i) proc dirs (code d)
      (join outputDir (imageName base i (outputFormat proc))) = (Inr r, proc', dirs')"
    using renderDiagram_Inr by blast
  then show ?case using Cons.IH by simp
qed

lemma spliced_occurs:
  assumes "wf_matches content pos ds" "length reps = length ds" "k < length ds"
  shows "occurs_at (pre @ spliced content pos (zip ds reps))
           (int (length pre) + (startIndex (ds ! k) - pos) + shift (take k (zip ds reps)))
           (case reps ! k of Some img \<Rightarrow> img | None \<Rightarrow> fullMatch (ds ! k))"
  using assms
proof (induction ds arbitrary: pos reps k pre)
  case Nil
  then show ?case by simp
next
  case (Cons d ds)
  from Cons.prems(2) obtain rep reps' where reps: "reps = rep # reps'" "length reps' = length ds"
    by (cases reps) auto
  from Cons.prems(1) have w: "0 \<le> pos" "pos \<le> startIndex d" "startIndex d \<le> endIndex d"
    "endIndex d \<le> int (length content)"
    "fullMatch d = substring content (startIndex d) (endIndex d)"
    and wf': "wf_matches content (endIndex d) ds"
    by simp_all
  define pc where "pc = (case rep of Some img \<Rightarrow> img | None \<Rightarrow> fullMatch d)"
  define pre' where "pre' = pre @ substring content pos (startIndex d)"
  have sp: "pre @ spliced content pos (zip (d # ds) reps) =
      pre' @ pc @ spliced content (endIndex d) (zip ds reps')"
    using w(5) by (simp add: reps pc_def pre'_def split: option.splits)
  have lp: "int (length pre') = int (length pre) + (startIndex d - pos)"
    using w by (simp add: pre'_def substring_length)
  show ?case
  proof (cases k)
    case 0
    have a: "occurs_at (pre' @ pc @ spliced content (endIndex d) (zip ds reps')) (int (length pre')) pc"
      by (rule occurs_at_append)
    have n1: "reps ! k = rep" and n2: "(d # ds) ! k = d" by (simp_all add: 0 reps)
    have p: "int (length pre') =
        int (length pre) + (startIndex d - pos) + shift (take k (zip (d # ds) reps))"
      using lp by (simp add: 0)
    have n3: "(case rep of Some img \<Rightarrow> img | None \<Rightarrow> fullMatch d) = pc"
      by (simp add: pc_def)
    show ?thesis unfolding sp n1 n2 n3 by (rule a [unfolded p])
  next
    case (Suc k')
    then have k': "k' < length ds" using Cons.prems(3) by simp
    have lf: "int (length (fullMatch d)) = endIndex d - startIndex d"
      using w by (simp add: substring_length)
    have sh: "shift (take k (zip (d # ds) reps)) =
        int (length pc) - (endIndex d - startIndex d) + shift (take k' (zip ds reps'))"
      using lf by (simp add: Suc reps pc_def split: option.splits)
    have a: "occurs_at ((pre' @ pc) @ spliced content (endIndex d) (zip ds reps'))
        (int (length (pre' @ pc)) + (startIndex (ds ! k') - endIndex d) +
         shift (take k' (zip ds reps')))
        (case reps' ! k' of Some img \<Rightarrow> img | None \<Rightarrow> fullMatch (ds ! k'))"
      by (rule Cons.IH [OF wf' reps(2) k'])
    have n1: "reps ! k = reps' ! k'" and n2: "(d # ds) ! k = ds ! k'"
      by (simp_all add: Suc reps)
    have p: "int (length (pre' @ pc)) + (startIndex (ds ! k') - endIndex d) +
         shift (take k' (zip ds reps')) =
       int (length pre) + (startIndex (ds ! k') - pos) + shift (take k (zip (d # ds) reps))"
      using lp sh by simp
    have ap: "(pre' @ pc) @ spliced content (endIndex d) (zip ds reps') =
        pre' @ pc @ spliced content (endIndex d) (zip ds reps')"
      by simp
    show ?thesis unfolding sp n1 n2 by (rule a [unfolded p ap])
  qed
qed


lemma processMarkdown_spliced:
  assumes "wf_matches content 0 (extractDiagrams content)"
  shows "\<exists>st. processMarkdown world join proc dirs content outputDir base =
     (Inr (spliced content 0
             (zip (extractDiagrams content)
                (replacements base (outputFormat proc) 0
                   (render_results world join outputDir base 0 (extractDiagrams content) proc dirs))),
           length (extractDiagrams content),
           error_entries 0
             (render_results world join outputDir base 0 (extractDiagrams content) proc dirs)), st)"
  using loop_invariant [OF assms, of 0 "[]" world join outputDir base 0 proc dirs "[]"]
  by (auto simp: substring_from_drop processMarkdown_def Let_def)

lemma splice_failure:
  "\<not> success r \<Longrightarrow> splice base fmt i d r (t, off, es) = (t, off, es @ [error_entry i r])"
  by simp

text \<open>
  C4, as stated, fails on a document whose blocks overlap. In the nested document the
  outer code-fence diagram (diagram 1) fails and the inner triple-colon diagram
  (diagram 2) is rendered: the image reference is spliced into the span of diagram 1,
  whose original source is no longer in the final text at its position.
\<close>

theorem processMarkdown_failure_counterexample:
  "\<not> success (render_results world_first_fails posix_join (js ''/tmp/work'') (js ''doc'') 0
        (extractDiagrams doc_nested) proc0 {} ! 0) \<and>
   fullMatch (extractDiagrams doc_nested ! 0) = doc_nested \<and>
   startIndex (extractDiagrams doc_nested ! 0) = 0 \<and>
   fst (processMarkdown world_first_fails posix_join proc0 {} doc_nested (js ''/tmp/work'')
          (js ''doc'')) =
     Inr (js (''```mermaid'' @ [CHR 0x0A] @ ''![Diagram 2](./doc-diagram-2.png)'' @ [CHR 0x0A] @
              ''```''),
          2, [js ''Diagram 1: Command failed'']) \<and>
   \<not> occurs_at (js (''```mermaid'' @ [CHR 0x0A] @ ''![Diagram 2](./doc-diagram-2.png)'' @
                     [CHR 0x0A] @ ''```'')) 0 doc_nested"
  by code_simp

text \<open>
  C4, amended. For every document text whose diagram blocks do not overlap and in which
  diagram \<open>k\<close> fails to render: the final text holds the original source of diagram \<open>k\<close>
  verbatim at its start offset shifted by the net change of length of the replacements
  before it; every diagram that was rendered, before or after \<open>k\<close>, has its image reference
  at its shifted position; the entry labelled with \<open>k + 1\<close> is in the failure list; and the
  loop body leaves text and offset as they are for the failed diagram, appending the
  entry.
\<close>

theorem processMarkdown_failure_isolated:
  fixes world join outputDir baseFileName content proc dirs
  defines "ds \<equiv> extractDiagrams content"
    and "rs \<equiv> render_results world join outputDir baseFileName 0 (extractDiagrams content) proc dirs"
    and "reps \<equiv> zip (extractDiagrams content) (replacements baseFileName (outputFormat proc) 0
          (render_results world join outputDir baseFileName 0 (extractDiagrams content) proc dirs))"
  assumes dj: "disjoint_spans (extractDiagrams content)"
    and k: "k < length (extractDiagrams content)"
    and fail: "\<not> success (render_results world join outputDir baseFileName 0
                  (extractDiagrams content) proc dirs ! k)"
  shows "\<exists>text errs st.
     processMarkdown world join proc dirs content outputDir baseFileName =
       (Inr (text, length ds, errs), st) \<and>
     occurs_at text (startIndex (ds ! k) + shift (take k reps)) (fullMatch (ds ! k)) \<and>
     (\<forall>j<length ds. success (rs ! j) \<longrightarrow>
        occurs_at text (startIndex (ds ! j) + shift (take j reps))
          (imageMarkdown j (imageName baseFileName j (outputFormat proc)))) \<and>
     error_entry k (rs ! k) \<in> set errs \<and>
     (\<forall>t off es. splice baseFileName (outputFormat proc) k (ds ! k) (rs ! k) (t, off, es) =
        (t, off, es @ [error_entry k (rs ! k)]))"
proof -
  have wf: "wf_matches content 0 ds" unfolding ds_def by (rule extractDiagrams_wf [OF dj])
  have len: "length (replacements baseFileName (outputFormat proc) 0 rs) = length ds"
    by (simp add: rs_def ds_def)
  have reps: "reps = zip ds (replacements baseFileName (outputFormat proc) 0 rs)"
    by (simp add: reps_def ds_def rs_def)
  from processMarkdown_spliced [OF wf [unfolded ds_def], of world join proc dirs outputDir baseFileName]
  obtain st where pm: "processMarkdown world join proc dirs content outputDir baseFileName =
     (Inr (spliced content 0 reps, length ds, error_entries 0 rs), st)"
    unfolding reps_def ds_def rs_def by blast
  have occ: "occurs_at (spliced content 0 reps) (startIndex (ds ! j) + shift (take j reps))
      (case replacement baseFileName (outputFormat proc) j (rs ! j) of
         Some img \<Rightarrow> img | None \<Rightarrow> fullMatch (ds ! j))" if "j < length ds" for j
  proof -
    have "j < length rs" using that by (simp add: rs_def ds_def)
    then have n: "replacements baseFileName (outputFormat proc) 0 rs ! j =
        replacement baseFileName (outputFormat proc) j (rs ! j)"
      using nth_replacements [of j rs baseFileName "outputFormat proc" 0] by simp
    from spliced_occurs [OF wf len that, of "[]"] show ?thesis
      unfolding reps n by simp
  qed
  have k': "k < length ds" using k by (simp add: ds_def)
  have fail': "\<not> success (rs ! k)" using fail by (simp add: rs_def)
  have 1: "occurs_at (spliced content 0 reps) (startIndex (ds ! k) + shift (take k reps))
      (fullMatch (ds ! k))"
  proof -
    have "replacement baseFileName (outputFormat proc) k (rs ! k) = None"
      using fail' by (simp add: replacement_def)
    with occ [OF k'] show ?thesis by simp
  qed
  have 2: "\<forall>j<length ds. success (rs ! j) \<longrightarrow>
        occurs_at (spliced content 0 reps) (startIndex (ds ! j) + shift (take j reps))
          (imageMarkdown j (imageName baseFileName j (outputFormat proc)))"
  proof (intro allI impI)
    fix j assume j: "j < length ds" and sj: "success (rs ! j)"
    have "replacement baseFileName (outputFormat proc) j (rs ! j) =
        Some (imageMarkdown j (imageName baseFileName j (outputFormat proc)))"
      using sj by (simp add: replacement_def)
    with occ [OF j] show "occurs_at (spliced content 0 reps)
        (startIndex (ds ! j) + shift (take j reps))
        (imageMarkdown j (imageName baseFileName j (outputFormat proc)))"
      by simp
  qed
  have "k < length rs" using k by (simp add: rs_def)
  from error_entries_member [OF this fail', of 0]
  have 3: "error_entry k (rs ! k) \<in> set (error_entries 0 rs)" by simp
  have 4: "\<forall>t off es. splice baseFileName (outputFormat proc) k (ds ! k) (rs ! k) (t, off, es) =
        (t, off, es @ [error_entry k (rs ! k)])"
    using splice_failure [OF fail'] by blast
  from pm 1 2 3 4 show ?thesis by blast
qed


theorem processMarkdown_failure_isolated_witness:
  "disjoint_spans (extractDiagrams doc_two) \<and> 0 < length (extractDiagrams doc_two) \<and>
   \<not> success (render_results world_first_fails posix_join (js ''/tmp/work'') (js ''doc'') 0
                  (extractDiagrams doc_two) proc0 {} ! 0) \<and>
   (\<exists>text errs st.
     processMarkdown world_first_fails posix_join proc0 {} doc_two (js ''/tmp/work'') (js ''doc'') =
       (Inr (text, 2, errs), st) \<and>
     occurs_at text 4 (js (''```mermaid'' @ [CHR 0x0A] @ ''A-->B'' @ [CHR 0x0A] @ ''```'')) \<and>
     occurs_at text 29 (js ''![Diagram 2](./doc-diagram-2.png)'') \<and>
     js ''Diagram 1: Command failed'' \<in> set errs)"
proof -
  have h1: "disjoint_spans (extractDiagrams doc_two)" by code_simp
  have h2: "0 < length (extractDiagrams doc_two)" by code_simp
  have h3: "\<not> success (render_results world_first_fails posix_join (js ''/tmp/work'') (js ''doc'') 0
                  (extractDiagrams doc_two) proc0 {} ! 0)" by code_simp
  have l: "length (extractDiagrams doc_two) = 2" by code_simp
  have s1: "success (render_results world_first_fails posix_join (js ''/tmp/work'') (js ''doc'') 0
                  (extractDiagrams doc_two) proc0 {} ! 1)" by code_simp
  have p0: "startIndex (extractDiagrams doc_two ! 0) + shift (take 0 (zip (extractDiagrams doc_two)
      (replacements (js ''doc'') (outputFormat proc0) 0
          (render_results world_first_fails posix_join (js ''/tmp/work'') (js ''doc'') 0
             (extractDiagrams doc_two) proc0 {})))) = 4" by code_simp
  have p1: "startIndex (extractDiagrams doc_two ! 1) + shift (take 1 (zip (extractDiagrams doc_two)
      (replacements (js ''doc'') (outputFormat proc0) 0
          (render_results world_first_fails posix_join (js ''/tmp/work'') (js ''doc'') 0
             (extractDiagrams doc_two) proc0 {})))) = 29" by code_simp
  have f0: "fullMatch (extractDiagrams doc_two ! 0) =
      js (''```mermaid'' @ [CHR 0x0A] @ ''A-->B'' @ [CHR 0x0A] @ ''```'')" by code_simp
  have i1: "imageMarkdown 1 (imageName (js ''doc'') 1 (outputFormat proc0)) =
      js ''![Diagram 2](./doc-diagram-2.png)''" by code_simp
  have e0: "error_entry 0 (render_results world_first_fails posix_join (js ''/tmp/work'') (js ''doc'') 0
                  (extractDiagrams doc_two) proc0 {} ! 0) = js ''Diagram 1: Command failed''"
    by code_simp
  from processMarkdown_failure_isolated [OF h1 h2 h3]
  obtain final errs st where
    r: "processMarkdown world_first_fails posix_join proc0 {} doc_two (js ''/tmp/work'') (js ''doc'') =
       (Inr (final, length (extractDiagrams doc_two), errs), st)"
    and o0: "occurs_at final (startIndex (extractDiagrams doc_two ! 0) +
        shift (take 0 (zip (extractDiagrams doc_two)
          (replacements (js ''doc'') (outputFormat proc0) 0
            (render_results world_first_fails posix_join (js ''/tmp/work'') (js ''doc'') 0
               (extractDiagrams doc_two) proc0 {})))))
        (fullMatch (extractDiagrams doc_two ! 0))"
    and oj: "\<forall>j<length (extractDiagrams doc_two).
        success (render_results world_first_fails posix_join (js ''/tmp/work'') (js ''doc'') 0
                  (extractDiagrams doc_two) proc0 {} ! j) \<longrightarrow>
        occurs_at final (startIndex (extractDiagrams doc_two ! j) +
          shift (take j (zip (extractDiagrams doc_two)
            (replacements (js ''doc'') (outputFormat proc0) 0
              (render_results world_first_fails posix_join (js ''/tmp/work'') (js ''doc'') 0
                 (extractDiagrams doc_two) proc0 {})))))
          (imageMarkdown j (imageName (js ''doc'') j (outputFormat proc0)))"
    and er: "error_entry 0 (render_results world_first_fails posix_join (js ''/tmp/work'') (js ''doc'') 0
                  (extractDiagrams doc_two) proc0 {} ! 0) \<in> set errs"
    by blast
  have o1: "occurs_at final 29 (js ''![Diagram 2](./doc-diagram-2.png)'')"
    using oj [rule_format, of 1] s1 unfolding l p1 i1 by simp
  have o0': "occurs_at final 4 (js (''```mermaid'' @ [CHR 0x0A] @ ''A-->B'' @ [CHR 0x0A] @ ''```''))"
    using o0 unfolding p0 f0 .
  from r o0' o1 er h1 h2 h3 show ?thesis unfolding e0 l by blast
qed

section \<open>Properties of convert\<close>

text \<open>
  C10. When \<open>convert\<close> is called with no explicit output path, the output path is the
  resolved input path with a trailing \<open>.md\<close>, in either case of the letters, replaced by
  \<open>.pdf\<close>. For an input path that does not end in \<open>.md\<close> the default output path is the
  resolved input path itself. This path is the destination that \<open>convert\<close> hands to the
  PDF generator, together with the processed copy in the working directory as the
  source: a conversion succeeds only if the generator succeeded on exactly these two
  paths, so for an input that does not end in \<open>.md\<close> the PDF is written over the source
  file. A successful conversion reports the same path as its output file.
\<close>

theorem convert_default_output:
  "resolvedOutput pl inputPath None = replace_md_ext (path_resolve pl inputPath) \<and>
   (ends_with_md (path_resolve pl inputPath) \<longrightarrow>
      resolvedOutput pl inputPath None =
        take (length (path_resolve pl inputPath) - 3) (path_resolve pl inputPath) @ js ''.pdf'') \<and>
   (\<not> ends_with_md (path_resolve pl inputPath) \<longrightarrow>
      resolvedOutput pl inputPath None = path_resolve pl inputPath) \<and>
   (success (fst (convert pl env keep proc ds inputPath None)) \<longrightarrow>
      outputFile (fst (convert pl env keep proc ds inputPath None)) =
        Some (replace_md_ext (path_resolve pl inputPath))) \<and>
   (success (fst (convert pl env keep proc ds inputPath None)) \<longrightarrow>
      (\<exists>w. work_dir env = Inr w \<and>
           success (generate env (path_join pl w (path_basename pl (path_resolve pl inputPath)))
                      (replace_md_ext (path_resolve pl inputPath))))) \<and>
   (success (fst (convert pl env keep proc ds inputPath None)) \<and>
    \<not> ends_with_md (path_resolve pl inputPath) \<longrightarrow>
      (\<exists>w. work_dir env = Inr w \<and>
           success (generate env (path_join pl w (path_basename pl (path_resolve pl inputPath)))
                      (path_resolve pl inputPath))))"
  by (auto simp: resolvedOutput_def replace_md_ext_def convert_def convert_try_def Let_def
      conversion_ok_def conversion_failed_def
      split: prod.splits sum.splits option.splits if_splits)

theorem convert_default_output_witness:
  "\<not> ends_with_md (path_resolve posix (js ''/docs/notes.txt'')) \<and>
   resolvedOutput posix (js ''/docs/notes.txt'') None = js ''/docs/notes.txt'' \<and>
   success (fst (convert posix env_writes_source False proc0 {} (js ''/docs/notes.txt'') None)) \<and>
   outputFile (fst (convert posix env_writes_source False proc0 {} (js ''/docs/notes.txt'') None)) =
     Some (js ''/docs/notes.txt'') \<and>
   work_dir env_writes_source = Inr (js ''/tmp/tmp-0'') \<and>
   success (generate env_writes_source (js ''/tmp/tmp-0/notes.txt'') (js ''/docs/notes.txt'')) \<and>
   \<not> success (generate env_writes_source (js ''/tmp/tmp-0/notes.txt'') (js ''/docs/notes.pdf'')) \<and>
   ends_with_md (path_resolve posix (js ''/docs/doc.MD'')) \<and>
   resolvedOutput posix (js ''/docs/doc.MD'') None = js ''/docs/doc.pdf''"
proof -
  have h0: "ends_with_md (path_resolve posix (js ''/docs/doc.MD''))" by code_simp
  have h1: "\<not> ends_with_md (path_resolve posix (js ''/docs/notes.txt''))" by code_simp
  have h2: "success (fst (convert posix env_writes_source False proc0 {} (js ''/docs/notes.txt'') None))"
    by code_simp
  have r: "replace_md_ext (path_resolve posix (js ''/docs/notes.txt'')) = js ''/docs/notes.txt''"
    by code_simp
  have m: "replace_md_ext (path_resolve posix (js ''/docs/doc.MD'')) = js ''/docs/doc.pdf''"
    by code_simp
  have w: "work_dir env_writes_source = Inr (js ''/tmp/tmp-0'')" by code_simp
  have j: "path_join posix (js ''/tmp/tmp-0'')
      (path_basename posix (path_resolve posix (js ''/docs/notes.txt''))) =
      js ''/tmp/tmp-0/notes.txt''" by code_simp
  have n: "\<not> success (generate env_writes_source (js ''/tmp/tmp-0/notes.txt'')
      (js ''/docs/notes.pdf''))" by code_simp
  show ?thesis
    using convert_default_output [of posix "js ''/docs/notes.txt''" env_writes_source False proc0 "{}"]
      convert_default_output [of posix "js ''/docs/doc.MD''" env_writes_source False proc0 "{}"]
      h0 h1 h2 r m w j n
    by simp
qed

text \<open>
  C2 does not hold of the code. The working directory that \<open>convert\<close> creates is removed
  on the successful path only; the \<open>finally\<close> clause removes the temporary directory of
  the Mermaid processor, another directory. When the PDF generator reports a failure,
  with \<open>keepIntermediate\<close> unset, \<open>convert\<close> returns \<open>success = false\<close> and the working
  directory still exists.
\<close>

theorem convert_failure_keeps_work_dir:
  "work_dir env_pdf_fails = Inr (js ''/tmp/tmp-0'') \<and>
   fst (convert posix env_pdf_fails False proc0 {} (js ''/docs/doc.md'') None) =
     conversion_failed (js ''/docs/doc.md'') (js ''PDF generation returned no content'') \<and>
   snd (snd (convert posix env_pdf_fails False proc0 {} (js ''/docs/doc.md'') None)) =
     {js ''/tmp/tmp-0''} \<and>
   snd (snd (convert posix env_convert_ok False proc0 {} (js ''/docs/doc.md'') None)) = {}"
  by code_simp

section \<open>batchConvert\<close>

text \<open>
  \<open>array.slice(start, end)\<close>: a negative index counts from the end of the array, and both
  are clamped to the array.
\<close>

definition slice :: "'a list \<Rightarrow> int \<Rightarrow> int \<Rightarrow> 'a list" where
  "slice array start stop =
     (let n = int (length array);
          from = (if start < 0 then max (n + start) 0 else min start n);
          to = (if stop < 0 then max (n + stop) 0 else min stop n)
      in take (nat (to - from)) (drop (nat from) array))"

text \<open>
  \<open>chunkArray\<close>: the loop \<^verbatim>\<open>for (let i = 0; i < array.length; i += sz)\<close>. With a size
  that is not positive the loop never ends on a non-empty array; not returning is the
  value \<open>None\<close>.
\<close>

partial_function (option) chunkArray_loop :: "'a list \<Rightarrow> int \<Rightarrow> int \<Rightarrow> 'a list list option" where
  "chunkArray_loop array sz i =
     (if i < int (length array) then
        Option.bind (chunkArray_loop array sz (i + sz))
          (\<lambda>chunks. Some (slice array i (i + sz) # chunks))
      else Some [])"

declare chunkArray_loop.simps [code]

definition chunkArray :: "'a list \<Rightarrow> int \<Rightarrow> 'a list list option" where
  "chunkArray array sz = chunkArray_loop array sz 0"

record BatchConversionOptions =
  patterns :: "jsstring list"
  outputDir :: "jsstring option"
  concurrency :: "int option"
  continueOnError :: bool

text \<open>
  The world of a batch run: the files that \<open>glob\<close> finds for a pattern, and the result to
  which the promise of \<open>this.convert(file, outputPath)\<close> resolves. The conversions of one
  group overlap in time; \<open>convert\<close> catches every error, so each promise resolves.
\<close>

record batch_env =
  glob :: "jsstring \<Rightarrow> jsstring list"
  converted :: "jsstring \<Rightarrow> jsstring option \<Rightarrow> ConversionResult"

definition batch_output_path :: "path_lib \<Rightarrow> BatchConversionOptions \<Rightarrow> jsstring \<Rightarrow> jsstring option" where
  "batch_output_path pl options file =
     (case outputDir options of
        Some d \<Rightarrow>
          if d \<noteq> [] then Some (path_join pl d (replace_md_ext (path_basename pl file))) else None
      | None \<Rightarrow> None)"

text \<open>
  The inner loop over the results of one group, on \<open>(results, successful, failed)\<close>: a
  failed result is pushed and counted, and then the loop is left unless
  \<open>continueOnError\<close> is set.
\<close>

fun tally :: "bool \<Rightarrow> ConversionResult list \<Rightarrow> ConversionResult list \<times> nat \<times> nat
     \<Rightarrow> ConversionResult list \<times> nat \<times> nat" where
  "tally coe [] acc = acc"
| "tally coe (r # rest) (results, successful, failed) =
     (if success r then tally coe rest (results @ [r], successful + 1, failed)
      else if \<not> coe then (results @ [r], successful, failed + 1)
      else tally coe rest (results @ [r], successful, failed + 1))"

text \<open>
  The outer loop over the groups. \<open>Promise.all\<close> starts the conversion of every file of
  the group and waits for all of them; \<open>launched\<close> records the files whose conversion was
  started.
\<close>

fun run_chunks :: "(jsstring \<Rightarrow> ConversionResult) \<Rightarrow> bool \<Rightarrow> jsstring list list
     \<Rightarrow> (ConversionResult list \<times> nat \<times> nat) \<times> jsstring list
     \<Rightarrow> (ConversionResult list \<times> nat \<times> nat) \<times> jsstring list" where
  "run_chunks cv coe [] acc = acc"
| "run_chunks cv coe (chunk # rest) (counts, launched) =
     (let chunkResults = map cv chunk;
          counts' = tally coe chunkResults counts
      in if \<not> coe \<and> 0 < snd (snd counts') then (counts', launched @ chunk)
         else run_chunks cv coe rest (counts', launched @ chunk))"

record BatchConversionResult =
  total :: nat
  successful :: nat
  failed :: nat
  results :: "ConversionResult list"

definition batchConvert :: "path_lib \<Rightarrow> batch_env \<Rightarrow> BatchConversionOptions
     \<Rightarrow> (BatchConversionResult \<times> jsstring list) option" where
  "batchConvert pl env options =
     (let files = concat (map (glob env) (patterns options));
          uniqueFiles = rev (remdups (rev files));
          sz = (case concurrency options of Some c \<Rightarrow> c | None \<Rightarrow> 3)
      in case chunkArray uniqueFiles sz of
           None \<Rightarrow> None
         | Some chunks \<Rightarrow>
             (case run_chunks (\<lambda>file. converted env file (batch_output_path pl options file))
                     (continueOnError options) chunks (([], 0, 0), []) of
                ((rs, s, f), launched) \<Rightarrow>
                  Some (\<lparr> total = length uniqueFiles, successful = s, failed = f,
                          results = rs \<rparr>, launched)))"

text \<open>
  For the statement of what a fail-fast run returns: the results up to and including the
  first failed one, and the groups up to and including the first one with a failed
  member. \<open>all_reported\<close> says that every file whose conversion was started has its result
  in the returned list and is counted in the tally.
\<close>

fun until_failure :: "ConversionResult list \<Rightarrow> ConversionResult list" where
  "until_failure [] = []"
| "until_failure (r # rs) = (if success r then r # until_failure rs else [r])"

fun groups_run :: "(jsstring \<Rightarrow> ConversionResult) \<Rightarrow> jsstring list list \<Rightarrow> jsstring list list" where
  "groups_run cv [] = []"
| "groups_run cv (g # gs) =
     (if list_all (\<lambda>f. success (cv f)) g then g # groups_run cv gs else [g])"

definition all_reported :: "BatchConversionResult \<times> jsstring list \<Rightarrow> bool" where
  "all_reported out \<longleftrightarrow>
     list_all (\<lambda>f. f \<in> inputFile ` set (results (fst out))) (snd out) \<and>
     successful (fst out) + failed (fst out) = length (snd out)"

text \<open>A batch of four files in groups of three; the conversion of the first file fails.\<close>

definition env_first_fails :: batch_env where
  "env_first_fails = \<lparr> glob = (\<lambda>p. [js ''/d/a.md'', js ''/d/b.md'', js ''/d/c.md'', js ''/d/e.md'']),
     converted = (\<lambda>file out. if file = js ''/d/a.md'' then conversion_failed file (js ''boom'')
        else conversion_ok file (replace_md_ext file) 0) \<rparr>"

definition batch_options :: BatchConversionOptions where
  "batch_options = \<lparr> patterns = [js ''/d/*.md''], outputDir = None, concurrency = None,
     continueOnError = False \<rparr>"


section \<open>Properties of batchConvert\<close>

lemma chunkArray_loop_Some:
  assumes "0 < sz" "0 \<le> i"
  shows "\<exists>chunks. chunkArray_loop array sz i = Some chunks \<and> concat chunks = drop (nat i) array"
  using assms(2)
proof (induction "nat (int (length array) - i)" arbitrary: i rule: less_induct)
  case less
  show ?case
  proof (cases "i < int (length array)")
    case False
    then show ?thesis using less.prems by (subst chunkArray_loop.simps) simp
  next
    case True
    have "nat (int (length array) - (i + sz)) < nat (int (length array) - i)"
      using True assms(1) by simp
    from less.hyps [OF this] less.prems assms(1)
    obtain chunks where c: "chunkArray_loop array sz (i + sz) = Some chunks"
      "concat chunks = drop (nat (i + sz)) array" by auto
    have s: "slice array i (i + sz) = take (nat sz) (drop (nat i) array)"
      using True less.prems assms(1) by (auto simp: slice_def Let_def min_def take_all_iff)
    have d: "drop (nat (i + sz)) array = drop (nat sz) (drop (nat i) array)"
      using less.prems assms(1) by (simp add: nat_add_distrib add.commute)
    have "slice array i (i + sz) @ concat chunks = drop (nat i) array"
      unfolding s c(2) d by (rule append_take_drop_id)
    then show ?thesis using True c(1) by (subst chunkArray_loop.simps) simp
  qed
qed


lemma chunkArray_Some:
  "0 < sz \<Longrightarrow> \<exists>chunks. chunkArray array sz = Some chunks \<and> concat chunks = array"
  using chunkArray_loop_Some [of sz 0 array] by (simp add: chunkArray_def)

lemma tally_fail_fast:
  "tally False xs (rs, s, f) =
     (rs @ until_failure xs, s + length (filter success (until_failure xs)),
      f + length (filter (\<lambda>r. \<not> success r) (until_failure xs)))"
  by (induction xs arbitrary: rs s f) simp_all

lemma until_failure_failed:
  "length (filter (\<lambda>r. \<not> success r) (until_failure xs)) = (if list_all success xs then 0 else 1)"
  by (induction xs) simp_all

lemma until_failure_all: "list_all success xs \<Longrightarrow> until_failure xs = xs"
  by (induction xs) simp_all

lemma until_failure_append:
  "until_failure (xs @ ys) =
     (if list_all success xs then xs @ until_failure ys else until_failure xs)"
  by (induction xs) simp_all

lemma run_chunks_fail_fast:
  "run_chunks cv False chunks ((rs, s, 0), launched) =
     ((rs @ until_failure (map cv (concat (groups_run cv chunks))),
       s + length (filter success (until_failure (map cv (concat (groups_run cv chunks))))),
       length (filter (\<lambda>r. \<not> success r)
                 (until_failure (map cv (concat (groups_run cv chunks)))))),
      launched @ concat (groups_run cv chunks))"
proof (induction chunks arbitrary: rs s launched)
  case Nil
  then show ?case by simp
next
  case (Cons g chunks)
  show ?case
  proof (cases "list_all success (map cv g)")
    case True
    then have g: "list_all (\<lambda>f. success (cv f)) g" by (simp add: list_all_iff)
    have u: "until_failure (map cv g) = map cv g" using True by (rule until_failure_all)
    have nf: "length (filter (\<lambda>r. \<not> success r) (map cv g)) = 0"
      using until_failure_failed [of "map cv g"] True unfolding u by simp
    have t: "tally False (map cv g) (rs, s, 0) =
        (rs @ map cv g, s + length (filter success (map cv g)), 0)"
      unfolding tally_fail_fast u nf by simp
    have gr: "groups_run cv (g # chunks) = g # groups_run cv chunks" using g by simp
    have uf: "until_failure (map cv (concat (g # groups_run cv chunks))) =
        map cv g @ until_failure (map cv (concat (groups_run cv chunks)))"
      using True by (simp add: until_failure_append)
    have "run_chunks cv False (g # chunks) ((rs, s, 0), launched) =
        run_chunks cv False chunks
          ((rs @ map cv g, s + length (filter success (map cv g)), 0), launched @ g)"
      by (simp add: t)
    also note Cons.IH
    finally show ?thesis unfolding gr uf using nf by simp
  next
    case False
    then have g: "\<not> list_all (\<lambda>f. success (cv f)) g" by (simp add: list_all_iff)
    have nf: "length (filter (\<lambda>r. \<not> success r) (until_failure (map cv g))) = 1"
      using until_failure_failed [of "map cv g"] False by simp
    have gr: "groups_run cv (g # chunks) = [g]" using g by simp
    have "run_chunks cv False (g # chunks) ((rs, s, 0), launched) =
        (tally False (map cv g) (rs, s, 0), launched @ g)"
      unfolding run_chunks.simps Let_def tally_fail_fast nf by simp
    then show ?thesis unfolding gr tally_fail_fast by simp
  qed
qed

text \<open>
  C3, as stated, fails. With \<open>continueOnError = false\<close> the inner loop is left at the first
  failed result of a group: the three files of the first group are all converted, the
  first one fails, and the results of the other two are neither returned nor counted.
\<close>

theorem batchConvert_drops_results_counterexample:
  "batchConvert posix env_first_fails batch_options =
     Some (\<lparr> total = 4, successful = 0, failed = 1,
             results = [conversion_failed (js ''/d/a.md'') (js ''boom'')] \<rparr>,
           [js ''/d/a.md'', js ''/d/b.md'', js ''/d/c.md'']) \<and>
   \<not> all_reported
       (\<lparr> total = 4, successful = 0, failed = 1,
          results = [conversion_failed (js ''/d/a.md'') (js ''boom'')] \<rparr>,
        [js ''/d/a.md'', js ''/d/b.md'', js ''/d/c.md''])"
  by code_simp

text \<open>
  C3, amended. For every batch run with \<open>continueOnError = false\<close> and a positive group
  size, \<open>batchConvert\<close> returns; no group is started after the first group with a failed
  member; the returned list holds the results of the started files up to and including
  the first failed one, in order, and the tally counts exactly the returned results.
\<close>

theorem batchConvert_fail_fast:
  fixes pl env options
  defines "uniqueFiles \<equiv> rev (remdups (rev (concat (map (glob env) (patterns options)))))"
    and "cv \<equiv> \<lambda>file. converted env file (batch_output_path pl options file)"
  assumes "\<not> continueOnError options"
    and "0 < (case concurrency options of Some c \<Rightarrow> c | None \<Rightarrow> 3)"
  shows "\<exists>chunks res launched.
     chunkArray uniqueFiles (case concurrency options of Some c \<Rightarrow> c | None \<Rightarrow> 3) = Some chunks \<and>
     concat chunks = uniqueFiles \<and>
     batchConvert pl env options = Some (res, launched) \<and>
     launched = concat (groups_run cv chunks) \<and>
     results res = until_failure (map cv launched) \<and>
     successful res = length (filter success (results res)) \<and>
     failed res = length (filter (\<lambda>r. \<not> success r) (results res)) \<and>
     total res = length uniqueFiles"
proof -
  from chunkArray_Some [OF assms(4), of uniqueFiles]
  obtain chunks where c: "chunkArray uniqueFiles (case concurrency options of Some c \<Rightarrow> c | None \<Rightarrow> 3)
      = Some chunks" "concat chunks = uniqueFiles"
    by blast
  have r: "run_chunks cv (continueOnError options) chunks (([], 0, 0), []) =
     ((until_failure (map cv (concat (groups_run cv chunks))),
       length (filter success (until_failure (map cv (concat (groups_run cv chunks))))),
       length (filter (\<lambda>r. \<not> success r)
                 (until_failure (map cv (concat (groups_run cv chunks)))))),
      concat (groups_run cv chunks))"
    using assms(3) run_chunks_fail_fast [of cv chunks "[]" 0 "[]"] by simp
  have "batchConvert pl env options =
      Some (\<lparr> total = length uniqueFiles,
        successful = length (filter success (until_failure (map cv (concat (groups_run cv chunks))))),
        failed = length (filter (\<lambda>r. \<not> success r)
                 (until_failure (map cv (concat (groups_run cv chunks))))),
        results = until_failure (map cv (concat (groups_run cv chunks))) \<rparr>,
        concat (groups_run cv chunks))"
    using c(1) r unfolding batchConvert_def Let_def uniqueFiles_def cv_def by simp
  with c show ?thesis by simp
qed

theorem batchConvert_fail_fast_witness:
  "\<not> continueOnError batch_options \<and>
   0 < (case concurrency batch_options of Some c \<Rightarrow> c | None \<Rightarrow> 3) \<and>
   batchConvert posix env_first_fails batch_options =
     Some (\<lparr> total = 4, successful = 0, failed = 1,
             results = [conversion_failed (js ''/d/a.md'') (js ''boom'')] \<rparr>,
           [js ''/d/a.md'', js ''/d/b.md'', js ''/d/c.md''])"
proof -
  have h1: "\<not> continueOnError batch_options" by (simp add: batch_options_def)
  have h2: "0 < (case concurrency batch_options of Some c \<Rightarrow> c | None \<Rightarrow> 3)"
    by (simp add: batch_options_def)
  have e: "batchConvert posix env_first_fails batch_options =
     Some (\<lparr> total = 4, successful = 0, failed = 1,
             results = [conversion_failed (js ''/d/a.md'') (js ''boom'')] \<rparr>,
           [js ''/d/a.md'', js ''/d/b.md'', js ''/d/c.md''])"
    by code_simp
  from batchConvert_fail_fast [OF h1 h2, where pl = posix and env = env_first_fails] h1 h2 e
  show ?thesis by blast
qed

section \<open>watch\<close>

text \<open>
  The state of one watch session. \<open>timers\<close> is the \<open>Map\<close> from file path to timer
  handle, in insertion order. \<open>armed\<close> holds the timers of the event loop that were set
  and have neither fired nor been cleared, each with the file of its callback.
  \<open>subscribed\<close> says that the chokidar watcher still delivers events, \<open>closing\<close> counts
  the calls of \<open>close\<close> that are waiting for \<open>watcher.close()\<close>, and \<open>started\<close> lists the
  files for which \<open>convert\<close> was called.
\<close>

record watch_state =
  timers :: "(jsstring \<times> nat) list"
  armed :: "(nat \<times> jsstring) list"
  next_handle :: nat
  subscribed :: bool
  closing :: nat
  started :: "jsstring list"

definition watch_init :: watch_state where
  "watch_init = \<lparr> timers = [], armed = [], next_handle = 0, subscribed = True,
     closing = 0, started = [] \<rparr>"

text \<open>\<open>clearTimeout\<close> disarms a timer; on a timer that fired or was cleared it does nothing.\<close>

definition clearTimeout :: "nat \<Rightarrow> (nat \<times> jsstring) list \<Rightarrow> (nat \<times> jsstring) list" where
  "clearTimeout h a = filter (\<lambda>(h', f). h' \<noteq> h) a"

text \<open>
  \<open>handleChange\<close>, called for a \<open>change\<close> or an \<open>add\<close> event of the file: the timer that
  the map holds for the file is cleared, a new one is set and stored.
\<close>

definition handleChange :: "jsstring \<Rightarrow> watch_state \<Rightarrow> watch_state" where
  "handleChange filePath s =
     (let a = (case map_of (timers s) filePath of
                 Some existing \<Rightarrow> clearTimeout existing (armed s)
               | None \<Rightarrow> armed s);
          timer = next_handle s
      in s \<lparr> armed := a @ [(timer, filePath)],
             timers := AList.update filePath timer (timers s),
             next_handle := timer + 1 \<rparr>)"

text \<open>
  The callback of a timer, up to its first \<open>await\<close>: the entry of the file is deleted
  from the map and \<open>convert\<close> is called.
\<close>

definition timer_callback :: "jsstring \<Rightarrow> watch_state \<Rightarrow> watch_state" where
  "timer_callback filePath s =
     s \<lparr> timers := AList.delete filePath (timers s), started := started s @ [filePath] \<rparr>"

text \<open>
  \<open>close\<close> after \<open>await watcher.close()\<close>: every timer in the map is cleared and the map
  is emptied.
\<close>

definition close_resume :: "watch_state \<Rightarrow> watch_state" where
  "close_resume s =
     s \<lparr> armed := fold clearTimeout (map snd (timers s)) (armed s), timers := [],
         subscribed := False, closing := closing s - 1 \<rparr>"

text \<open>
  What can happen in the event loop: the watcher delivers an event for a file, while it
  is subscribed; an armed timer fires; \<open>close\<close> is called and starts to wait for
  \<open>watcher.close()\<close>; a waiting \<open>close\<close> goes on once the watcher is closed, after which
  the watcher delivers nothing. \<open>None\<close> says that the event cannot happen in the state.
\<close>

datatype event = Change jsstring | Fire nat | CloseCall | CloseReturn

fun step :: "event \<Rightarrow> watch_state \<Rightarrow> watch_state option" where
  "step (Change filePath) s = (if subscribed s then Some (handleChange filePath s) else None)"
| "step (Fire h) s =
     (case map_of (armed s) h of
        Some filePath \<Rightarrow> Some (timer_callback filePath (s \<lparr> armed := clearTimeout h (armed s) \<rparr>))
      | None \<Rightarrow> None)"
| "step CloseCall s = Some (s \<lparr> closing := closing s + 1 \<rparr>)"
| "step CloseReturn s = (if 0 < closing s then Some (close_resume s) else None)"

fun run :: "event list \<Rightarrow> watch_state \<Rightarrow> watch_state option" where
  "run [] s = Some s"
| "run (e # es) s = (case step e s of Some s' \<Rightarrow> run es s' | None \<Rightarrow> None)"

text \<open>
  \<open>is_timer_or_change\<close> picks the events in which a timer fires or the watcher delivers
  a file event; \<open>quiet\<close> says that no timer is armed and the watcher delivers nothing.
\<close>

definition is_timer_or_change :: "event \<Rightarrow> bool" where
  "is_timer_or_change e = (case e of Change f \<Rightarrow> True | Fire h \<Rightarrow> True | _ \<Rightarrow> False)"

text \<open>Every armed timer is the one that the map holds for its file.\<close>

definition timers_inv :: "watch_state \<Rightarrow> bool" where
  "timers_inv s \<longleftrightarrow> (\<forall>(h, f) \<in> set (armed s). map_of (timers s) f = Some h)"

definition quiet :: "watch_state \<Rightarrow> bool" where
  "quiet s \<longleftrightarrow> armed s = [] \<and> \<not> subscribed s"

text \<open>
  A session: two edits of one file and one of another, the timer of the second file
  fires, the file is edited again, \<open>close\<close> is called, and one more event arrives while
  \<open>close\<close> waits for the watcher. Two timers are pending when \<open>close\<close> goes on.
\<close>

definition a_md :: jsstring where
  "a_md = js ''/d/a.md''"

definition b_md :: jsstring where
  "b_md = js ''/d/b.md''"

definition session_before :: "event list" where
  "session_before =
     [Change a_md, Change a_md, Change b_md, Fire 2, Change b_md, CloseCall, Change a_md]"

definition session_pending :: watch_state where
  "session_pending = \<lparr> timers = [(a_md, 4), (b_md, 3)], armed = [(3, b_md), (4, a_md)],
     next_handle = 5, subscribed = True, closing = 1, started = [b_md] \<rparr>"

definition session_closed :: watch_state where
  "session_closed = \<lparr> timers = [], armed = [], next_handle = 5, subscribed = False,
     closing = 0, started = [b_md] \<rparr>"

section \<open>Properties of watch\<close>

lemma clearTimeout_set: "set (clearTimeout h a) = {(h', f) \<in> set a. h' \<noteq> h}"
  by (auto simp: clearTimeout_def)

lemma fold_clearTimeout_set:
  "set (fold clearTimeout hs a) = {(h', f) \<in> set a. h' \<notin> set hs}"
  by (induction hs arbitrary: a) (auto simp: clearTimeout_set)

lemma timers_inv_init: "timers_inv watch_init"
  by (simp add: timers_inv_def watch_init_def)

lemma fold_clearTimeout_Nil: "fold clearTimeout hs [] = []"
  by (induction hs) (simp_all add: clearTimeout_def)

lemma close_resume_quiet:
  assumes "timers_inv s"
  shows "quiet (close_resume s)"
proof -
  have "h \<in> set (map snd (timers s))" if "(h, f) \<in> set (armed s)" for h f
  proof -
    from assms that have "map_of (timers s) f = Some h" by (auto simp: timers_inv_def)
    then have "(f, h) \<in> set (timers s)" by (rule map_of_SomeD)
    then show ?thesis by force
  qed
  then have "set (fold clearTimeout (map snd (timers s)) (armed s)) = {}"
    unfolding fold_clearTimeout_set by auto
  then show ?thesis by (simp add: quiet_def close_resume_def)
qed

lemma timers_inv_step:
  assumes "timers_inv s" "step e s = Some s'"
  shows "timers_inv s'"
proof (cases e)
  case (Change f)
  with assms(2) have s': "s' = handleChange f s" by (simp split: if_splits)
  show ?thesis
  proof (cases "map_of (timers s) f")
    case None
    have "f' \<noteq> f" if "(h', f') \<in> set (armed s)" for h' f'
      using assms(1) that None by (auto simp: timers_inv_def)
    then show ?thesis using assms(1) None
      by (auto simp: timers_inv_def s' handleChange_def Let_def update_conv)
  next
    case (Some h0)
    have "f' \<noteq> f" if "(h', f') \<in> set (clearTimeout h0 (armed s))" for h' f'
      using assms(1) that Some by (auto simp: timers_inv_def clearTimeout_set)
    then show ?thesis using assms(1) Some
      by (auto simp: timers_inv_def s' handleChange_def Let_def update_conv clearTimeout_set)
  qed
next
  case (Fire h)
  with assms(2) obtain f where f: "map_of (armed s) h = Some f"
    and s': "s' = timer_callback f (s \<lparr> armed := clearTimeout h (armed s) \<rparr>)"
    by (auto split: option.splits)
  from f have "(h, f) \<in> set (armed s)" by (rule map_of_SomeD)
  with assms(1) have hf: "map_of (timers s) f = Some h" by (auto simp: timers_inv_def)
  have "f' \<noteq> f" if "(h', f') \<in> set (clearTimeout h (armed s))" for h' f'
    using assms(1) that hf by (auto simp: timers_inv_def clearTimeout_set)
  then show ?thesis using assms(1)
    by (auto simp: timers_inv_def s' timer_callback_def clearTimeout_set delete_conv)
next
  case CloseCall
  with assms show ?thesis by (auto simp: timers_inv_def)
next
  case CloseReturn
  with assms(2) have "s' = close_resume s" by (simp split: if_splits)
  with close_resume_quiet [OF assms(1)] show ?thesis by (simp add: quiet_def timers_inv_def)
qed

lemma timers_inv_run: "timers_inv s \<Longrightarrow> run es s = Some s' \<Longrightarrow> timers_inv s'"
proof (induction es arbitrary: s)
  case Nil
  then show ?case by simp
next
  case (Cons e es)
  then show ?case by (auto split: option.splits dest: timers_inv_step)
qed

lemma quiet_step:
  assumes "quiet s" "step e s = Some s'"
  shows "quiet s' \<and> started s' = started s \<and> \<not> is_timer_or_change e"
proof (cases e)
  case (Change f)
  with assms show ?thesis by (simp add: quiet_def)
next
  case (Fire h)
  with assms show ?thesis by (simp add: quiet_def)
next
  case CloseCall
  with assms show ?thesis by (auto simp: quiet_def is_timer_or_change_def)
next
  case CloseReturn
  with assms show ?thesis
    by (auto simp: quiet_def is_timer_or_change_def close_resume_def fold_clearTimeout_Nil
        split: if_splits)
qed

lemma quiet_run:
  "quiet s \<Longrightarrow> run es s = Some s' \<Longrightarrow>
   quiet s' \<and> started s' = started s \<and> list_all (\<lambda>e. \<not> is_timer_or_change e) es"
proof (induction es arbitrary: s)
  case Nil
  then show ?case by simp
next
  case (Cons e es)
  from Cons.prems(2) obtain s1 where s1: "step e s = Some s1" "run es s1 = Some s'"
    by (auto split: option.splits)
  from quiet_step [OF Cons.prems(1) s1(1)] Cons.IH [OF _ s1(2)]
  show ?case by simp
qed

text \<open>
  C7. Once \<open>close\<close> has returned (its promise is resolved), no timer is armed: the
  timers that were pending for events that had arrived before, and those set while
  \<open>close\<close> was waiting for the watcher, have all been cleared. Whatever happens afterwards,
  no debounce timer fires, no file event is handled and no conversion starts.
\<close>

theorem close_stops_timers:
  assumes "run before watch_init = Some s"
    and "step CloseReturn s = Some s'"
    and "run after s' = Some s''"
  shows "armed s' = [] \<and> armed s'' = [] \<and> started s'' = started s' \<and>
         list_all (\<lambda>e. \<not> is_timer_or_change e) after"
proof -
  have "timers_inv s" using timers_inv_run [OF timers_inv_init assms(1)] .
  moreover from assms(2) have "s' = close_resume s" by (simp split: if_splits)
  ultimately have q: "quiet s'" using close_resume_quiet by simp
  from quiet_run [OF q assms(3)] q show ?thesis by (simp add: quiet_def)
qed

theorem close_stops_timers_witness:
  "run session_before watch_init = Some session_pending \<and>
   step CloseReturn session_pending = Some session_closed \<and>
   run [CloseCall, CloseReturn] session_closed = Some session_closed \<and>
   armed session_pending = [(3, b_md), (4, a_md)] \<and>
   armed session_closed = [] \<and> started session_closed = [b_md] \<and>
   run [Fire 3] session_closed = None \<and> run [Fire 4] session_closed = None"
proof -
  have h1: "run session_before watch_init = Some session_pending" by code_simp
  have h2: "step CloseReturn session_pending = Some session_closed" by code_simp
  have h3: "run [CloseCall, CloseReturn] session_closed = Some session_closed" by code_simp
  have n: "run [Fire 3] session_closed = None" "run [Fire 4] session_closed = None"
    by (simp_all add: session_closed_def)
  from close_stops_timers [OF h1 h2 h3] h1 h2 h3 n show ?thesis
    by (simp add: session_pending_def session_closed_def)
qed

section \<open>mergeConfig\<close>

text \<open>
  A JavaScript object is the list of its own properties, in insertion order; a
  property can be present with the value \<open>undefined\<close>. The spread \<open>{ ...a, ...b }\<close> copies
  the properties of \<open>a\<close> and then those of \<open>b\<close>, each of which replaces a property of
  the same key; spreading \<open>undefined\<close> copies nothing.
\<close>

datatype jsvalue = Undefined | JBool bool | JNum int | JStr jsstring | JObj "(string \<times> jsvalue) list"

type_synonym obj = "(string \<times> jsvalue) list"

definition spread :: "obj option \<Rightarrow> obj \<Rightarrow> obj" where
  "spread a b = fold (\<lambda>(k, v). AList.update k v) b (case a of Some x \<Rightarrow> x | None \<Rightarrow> [])"

record ConfigFile =
  pdf :: "obj option"
  mermaid :: "obj option"
  style :: "obj option"

record ConversionOptions = ConfigFile +
  input_path :: "jsstring option"
  output_path :: "jsstring option"
  verbose :: "bool option"
  keepIntermediate :: "bool option"
  workingDir :: "jsstring option"

definition truthy :: "jsstring option \<Rightarrow> bool" where
  "truthy s = (case s of Some x \<Rightarrow> x \<noteq> [] | None \<Rightarrow> False)"

text \<open>
  \<open>mergeConfig\<close>. An object is truthy, so a sub-object of the file is taken when it is
  there; the strings are copied when they are not empty, the booleans when they are not
  \<open>undefined\<close>. The options \<open>input\<close> and \<open>output\<close> are the fields \<open>input_path\<close> and
  \<open>output_path\<close>. The keys \<open>outputDir\<close> and \<open>ignore\<close> of the file are not read.
\<close>

definition mergeConfig :: "ConfigFile option \<Rightarrow> ConversionOptions \<Rightarrow> ConversionOptions" where
  "mergeConfig fileConfig cliOptions =
     (let merged = \<lparr> pdf = None, mermaid = None, style = None, input_path = None, output_path = None,
                      verbose = None, keepIntermediate = None, workingDir = None \<rparr>;
          merged = (case fileConfig of
                      Some fc \<Rightarrow>
                        (let m = (if pdf fc \<noteq> None then merged \<lparr> pdf := pdf fc \<rparr> else merged);
                             m = (if mermaid fc \<noteq> None then m \<lparr> mermaid := mermaid fc \<rparr> else m);
                             m = (if style fc \<noteq> None then m \<lparr> style := style fc \<rparr> else m)
                         in m)
                    | None \<Rightarrow> merged);
          merged = (case pdf cliOptions of
                      Some c \<Rightarrow> merged \<lparr> pdf := Some (spread (pdf merged) c) \<rparr>
                    | None \<Rightarrow> merged);
          merged = (case mermaid cliOptions of
                      Some c \<Rightarrow> merged \<lparr> mermaid := Some (spread (mermaid merged) c) \<rparr>
                    | None \<Rightarrow> merged);
          merged = (case style cliOptions of
                      Some c \<Rightarrow> merged \<lparr> style := Some (spread (style merged) c) \<rparr>
                    | None \<Rightarrow> merged);
          merged = (if truthy (input_path cliOptions) then merged \<lparr> input_path := input_path cliOptions \<rparr>
                    else merged);
          merged = (if truthy (output_path cliOptions) then merged \<lparr> output_path := output_path cliOptions \<rparr>
                    else merged);
          merged = (if verbose cliOptions \<noteq> None then merged \<lparr> verbose := verbose cliOptions \<rparr>
                    else merged);
          merged = (if keepIntermediate cliOptions \<noteq> None
                    then merged \<lparr> keepIntermediate := keepIntermediate cliOptions \<rparr>
                    else merged);
          merged = (if truthy (workingDir cliOptions)
                    then merged \<lparr> workingDir := workingDir cliOptions \<rparr> else merged)
      in merged)"

text \<open>
  The constructor of \<open>PdfGenerator\<close> puts the built-in defaults under the options it is
  given: \<open>{ ...DEFAULT_PDF_OPTIONS, ...pdfOptions }\<close>.
\<close>

definition DEFAULT_PDF_OPTIONS :: obj where
  "DEFAULT_PDF_OPTIONS =
     [(''format'', JStr (js ''A4'')),
      (''margin'', JObj [(''top'', JStr (js ''20mm'')), (''right'', JStr (js ''15mm'')),
                        (''bottom'', JStr (js ''20mm'')), (''left'', JStr (js ''15mm''))]),
      (''printBackground'', JBool True),
      (''landscape'', JBool False),
      (''displayHeaderFooter'', JBool False),
      (''scale'', JNum 1)]"

definition PdfGenerator_pdfOptions :: "obj option \<Rightarrow> obj" where
  "PdfGenerator_pdfOptions pdfOptions =
     spread (Some DEFAULT_PDF_OPTIONS) (case pdfOptions of Some x \<Rightarrow> x | None \<Rightarrow> [])"

text \<open>
  A config file that asks for landscape pages, and the options that the \<open>convert\<close>
  command of the CLI builds when it is run without \<open>--landscape\<close>: the key \<open>landscape\<close>
  is there, with the value \<open>undefined\<close>.
\<close>

definition file_landscape :: ConfigFile where
  "file_landscape = \<lparr> pdf = Some [(''landscape'', JBool True)], mermaid = None, style = None \<rparr>"

definition cli_plain :: ConversionOptions where
  "cli_plain = \<lparr> pdf = Some [(''format'', JStr (js ''A4'')), (''landscape'', Undefined),
        (''margin'', JObj [(''top'', JStr (js ''20mm'')), (''bottom'', JStr (js ''20mm'')),
                          (''left'', JStr (js ''15mm'')), (''right'', JStr (js ''15mm''))])],
     mermaid = Some [(''theme'', JStr (js ''default''))], style = None,
     input_path = Some (js ''doc.md''), output_path = None, verbose = None, keepIntermediate = None,
     workingDir = None \<rparr>"

section \<open>Properties of mergeConfig\<close>

text \<open>
  C9 does not hold of the code. The claim gives a key the file's value when the caller
  supplies none. The spread copies a property of the caller's sub-object also when its
  value is \<open>undefined\<close>: the \<open>landscape: true\<close> of the file is replaced by \<open>undefined\<close>, and
  in the constructor of \<open>PdfGenerator\<close> this \<open>undefined\<close> replaces the built-in default as
  well. The top-level options are guarded by \<open>!== undefined\<close>; the sub-objects are not.
\<close>

theorem mergeConfig_undefined_overrides_file:
  "map_of (case pdf cli_plain of Some x \<Rightarrow> x | None \<Rightarrow> []) ''landscape'' = Some Undefined \<and>
   map_of (case pdf file_landscape of Some x \<Rightarrow> x | None \<Rightarrow> []) ''landscape'' = Some (JBool True) \<and>
   pdf (mergeConfig (Some file_landscape) cli_plain) =
     Some [(''landscape'', Undefined), (''format'', JStr (js ''A4'')),
           (''margin'', JObj [(''top'', JStr (js ''20mm'')), (''bottom'', JStr (js ''20mm'')),
                             (''left'', JStr (js ''15mm'')), (''right'', JStr (js ''15mm''))])] \<and>
   map_of (PdfGenerator_pdfOptions (pdf (mergeConfig (Some file_landscape) cli_plain)))
     ''landscape'' = Some Undefined"
  by code_simp

end
